theory Spec2Isabelle
  imports Main "HOL-Library.Multiset"
begin

section \<open>Documents of the four collections\<close>

text \<open>
  The schemas of \<^verbatim>\<open>server.js\<close>. The type \<open>'num\<close> stands for the values of the
  schema type \<^verbatim>\<open>Number\<close> the handlers compute with (balances, stakes, ledger
  amounts, the count of paid matches); what the code computes with them is the
  parameter \<open>ops\<close> below. Timestamps are the integers \<^verbatim>\<open>Date.now\<close> returns. Every
  document carries the fields of its schema; \<^verbatim>\<open>name\<close> and \<^verbatim>\<open>winningTeam\<close> of a
  match may be unset. The \<^verbatim>\<open>_id\<close> of a user and of a match is its key in the
  collection; the generated \<^verbatim>\<open>_id\<close> of transactions, notifications and roster
  entries is read nowhere and left out.
\<close>

record 'num user =
  u_username :: string
  email :: string
  pin :: string
  role :: string
  balance :: 'num
  isBlocked :: bool
  isDeleted :: bool
  canCreateMatch :: bool
  totalMatchesPaid :: 'num
  u_createdAt :: int

record 'num player =
  userId :: string
  username :: string
  betAmount :: 'num
  paid :: bool

record 'num match =
  name :: "string option"
  teamA :: "'num player list"
  teamB :: "'num player list"
  winningTeam :: "string option"
  status :: string
  createdAt :: int

record 'num transaction =
  t_userId :: string
  amount :: 'num
  t_type :: string
  description :: string
  timestamp :: int

record notification =
  n_userId :: string
  message :: string
  n_timestamp :: int
  isRead :: bool

text \<open>
  The database: users and matches are keyed by ObjectId (the type \<open>'oid\<close>),
  transactions and notifications are kept in insertion order.
\<close>

record ('num, 'oid) db =
  users :: "'oid \<rightharpoonup> 'num user"
  matches :: "'oid \<rightharpoonup> 'num match"
  transactions :: "'num transaction list"
  notifications :: "notification list"

section \<open>What the code does with a Number\<close>

text \<open>
  Four operations of the source touch a Number: the addition of \<^verbatim>\<open>$inc\<close>, the
  negation in \<^verbatim>\<open>-p.betAmount\<close>, the test \<^verbatim>\<open>amount >= 0\<close> and the conversion
  to a string inside a template literal. Together with the schema's default
  \<^verbatim>\<open>0\<close> and the step \<^verbatim>\<open>1\<close> of the payment count they are a parameter of the
  handlers: nothing is assumed of them, so every statement holds of the arithmetic
  the code runs on, whatever it does with large or fractional amounts.
\<close>

record 'num number_ops =
  num_add :: "'num \<Rightarrow> 'num \<Rightarrow> 'num"
  num_neg :: "'num \<Rightarrow> 'num"
  num_ge0 :: "'num \<Rightarrow> bool"
  num_show :: "'num \<Rightarrow> string"
  num_zero :: 'num
  num_one :: 'num

section \<open>The Mongoose calls the handlers make\<close>

text \<open>
  Route parameters and roster references are strings; Mongoose casts a string to an
  ObjectId before it queries by \<^verbatim>\<open>_id\<close> and throws a CastError when the string
  is not one. The cast is a parameter \<open>cast\<close> of every handler.
\<close>

datatype error = CastError

definition findById ::
  "(string \<Rightarrow> 'oid option) \<Rightarrow> ('oid \<rightharpoonup> 'd) \<Rightarrow> string \<Rightarrow> error + ('oid \<times> 'd) option" where
  "findById cast coll sid =
     (case cast sid of
        None \<Rightarrow> Inl CastError
      | Some k \<Rightarrow> Inr (case coll k of None \<Rightarrow> None | Some d \<Rightarrow> Some (k, d)))"

text \<open>
  \<^verbatim>\<open>findByIdAndUpdate(id, update)\<close>: the updated document (or null) and the
  collection after the update.
\<close>

definition findByIdAndUpdate ::
  "(string \<Rightarrow> 'oid option) \<Rightarrow> ('oid \<rightharpoonup> 'd) \<Rightarrow> string \<Rightarrow> ('d \<Rightarrow> 'd) \<Rightarrow>
     error + (('oid \<times> 'd) option \<times> ('oid \<rightharpoonup> 'd))" where
  "findByIdAndUpdate cast coll sid upd =
     (case cast sid of
        None \<Rightarrow> Inl CastError
      | Some k \<Rightarrow>
          (case coll k of
             None \<Rightarrow> Inr (None, coll)
           | Some d \<Rightarrow> Inr (Some (k, upd d), coll(k \<mapsto> upd d))))"

text \<open>\<^verbatim>\<open>{ $inc: { balance: n } }\<close> and \<^verbatim>\<open>{ $inc: { totalMatchesPaid: 1 } }\<close>.\<close>

definition inc_balance :: "'num number_ops \<Rightarrow> 'num \<Rightarrow> 'num user \<Rightarrow> 'num user" where
  "inc_balance ops n u = u\<lparr>balance := num_add ops (balance u) n\<rparr>"

definition inc_totalMatchesPaid :: "'num number_ops \<Rightarrow> 'num \<Rightarrow> 'num user \<Rightarrow> 'num user" where
  "inc_totalMatchesPaid ops n u = u\<lparr>totalMatchesPaid := num_add ops (totalMatchesPaid u) n\<rparr>"

text \<open>\<^verbatim>\<open>.sort({ timestamp: -1 })\<close>: descending by timestamp.\<close>

definition sort_desc :: "'num transaction list \<Rightarrow> 'num transaction list" where
  "sort_desc txs = sort_key (\<lambda>t. - timestamp t) txs"

section \<open>Responses\<close>

datatype ('num, 'oid) json =
    Empty
  | Null
  | Message string
  | UserDoc 'oid "'num user"
  | MatchDoc 'oid "'num match"
  | TxDocs "'num transaction list"

text \<open>
  A handler answers with a status code and a body, or throws outside any
  \<^verbatim>\<open>try\<close> and sends nothing (\<open>Unhandled\<close>); what it wrote before stays written.
\<close>

datatype ('num, 'oid) reply = Reply nat "('num, 'oid) json" | Unhandled

section \<open>Template strings\<close>

text \<open>\<^verbatim>\<open>${match.name}\<close>: an unset name prints as \<^verbatim>\<open>undefined\<close>.\<close>

definition show_name :: "string option \<Rightarrow> string" where
  "show_name n = (case n of None \<Rightarrow> ''undefined'' | Some s \<Rightarrow> s)"

section \<open>POST /api/users/:userId/adjust\<close>

definition adjust ::
  "(string \<Rightarrow> 'oid option) \<Rightarrow> 'num number_ops \<Rightarrow> (nat \<Rightarrow> int) \<Rightarrow> string \<Rightarrow> 'num \<Rightarrow> string \<Rightarrow>
     ('num, 'oid) db \<Rightarrow> ('num, 'oid) reply \<times> ('num, 'oid) db" where
  "adjust cast ops now uid amt descr s =
     (case findByIdAndUpdate cast (users s) uid (inc_balance ops amt) of
        Inl e \<Rightarrow> (Reply 400 (Message ''Adjustment failed''), s)
      | Inr (None, us) \<Rightarrow> (Reply 404 (Message ''User not found''), s)
      | Inr (Some (k, u), us) \<Rightarrow>
          (Reply 200 (UserDoc k u),
           s\<lparr>users := us,
             transactions := transactions s @
               [\<lparr>t_userId = uid, amount = amt, t_type = ''ADMIN_ADJUST'',
                 description = descr, timestamp = now 0\<rparr>],
             notifications := notifications s @
               [\<lparr>n_userId = uid,
                 message = ''System Adjustment: '' @ (if num_ge0 ops amt then ''+'' else '''') @
                   num_show ops amt @ '' credits ('' @ descr @ '')'',
                 n_timestamp = now 1, isRead = False\<rparr>]\<rparr>))"

section \<open>PATCH /api/matches/:id/settle\<close>

text \<open>
  One loop of the handler over a roster: \<open>win\<close> tells the winners' loop from
  the losers'. \<open>i\<close> counts the readings of the clock made so far. A CastError
  leaves the loop with the database as it is then (\<open>Inl\<close>).
\<close>

definition payout_tx ::
  "'num number_ops \<Rightarrow> (nat \<Rightarrow> int) \<Rightarrow> bool \<Rightarrow> string option \<Rightarrow> nat \<Rightarrow> 'num player \<Rightarrow>
     'num transaction" where
  "payout_tx ops now win nm i p =
     (if win then
        \<lparr>t_userId = userId p, amount = betAmount p, t_type = ''WIN'',
          description = ''Victory: '' @ show_name nm, timestamp = now i\<rparr>
      else
        \<lparr>t_userId = userId p, amount = num_neg ops (betAmount p), t_type = ''LOSS'',
          description = ''Defeat: '' @ show_name nm, timestamp = now i\<rparr>)"

fun payout_loop ::
  "(string \<Rightarrow> 'oid option) \<Rightarrow> 'num number_ops \<Rightarrow> (nat \<Rightarrow> int) \<Rightarrow> bool \<Rightarrow> string option \<Rightarrow> nat \<Rightarrow>
     'num player list \<Rightarrow> ('num, 'oid) db \<Rightarrow> ('num, 'oid) db + ('num, 'oid) db" where
  "payout_loop cast ops now win nm i [] s = Inr s"
| "payout_loop cast ops now win nm i (p # ps) s =
     (case findByIdAndUpdate cast (users s) (userId p)
             (inc_balance ops (if win then betAmount p else num_neg ops (betAmount p))) of
        Inl e \<Rightarrow> Inl s
      | Inr (u, us) \<Rightarrow>
          payout_loop cast ops now win nm (Suc i) ps
            (s\<lparr>users := us,
               transactions := transactions s @ [payout_tx ops now win nm i p]\<rparr>))"

definition settle ::
  "(string \<Rightarrow> 'oid option) \<Rightarrow> 'num number_ops \<Rightarrow> (nat \<Rightarrow> int) \<Rightarrow> string \<Rightarrow> string option \<Rightarrow>
     ('num, 'oid) db \<Rightarrow> ('num, 'oid) reply \<times> ('num, 'oid) db" where
  "settle cast ops now mid w s =
     (case findById cast (matches s) mid of
        Inl e \<Rightarrow> (Unhandled, s)
      | Inr None \<Rightarrow> (Reply 400 Empty, s)
      | Inr (Some (mk, m0)) \<Rightarrow>
          if status m0 = ''SETTLED'' then (Reply 400 Empty, s)
          else
            let m = m0\<lparr>status := ''SETTLED'', winningTeam := w\<rparr>;
                s1 = s\<lparr>matches := (matches s)(mk \<mapsto> m)\<rparr>;
                winners = (if w = Some ''A'' then teamA m else teamB m);
                losers = (if w = Some ''A'' then teamB m else teamA m)
            in (case payout_loop cast ops now True (name m) 0 winners s1 of
                  Inl s2 \<Rightarrow> (Unhandled, s2)
                | Inr s2 \<Rightarrow>
                    (case payout_loop cast ops now False (name m) (length winners) losers s2 of
                       Inl s3 \<Rightarrow> (Unhandled, s3)
                     | Inr s3 \<Rightarrow> (Reply 200 (MatchDoc mk m), s3))))"

subsection \<open>The handler one database call at a time\<close>

text \<open>
  Every \<^verbatim>\<open>await\<close> of the handler is one call to the database, and other requests
  may run between two of them. A call of settle is, in turn: about to load the
  match; about to save it (the match in memory already SETTLED); about to update the
  balance of the next roster entry, or to answer when none is left; about to record
  the ledger entry of the roster entry just paid; finished with its reply. Saving
  writes the two fields the handler assigned.
\<close>

datatype ('num, 'oid) settling =
    Loading string "string option"
  | Saving 'oid "'num match" "string option"
  | Updating 'oid "'num match" nat "(bool \<times> 'num player) list"
  | Recording 'oid "'num match" nat bool "'num player" "(bool \<times> 'num player) list"
  | Finished "('num, 'oid) reply"

fun settle_step ::
  "(string \<Rightarrow> 'oid option) \<Rightarrow> 'num number_ops \<Rightarrow> (nat \<Rightarrow> int) \<Rightarrow> ('num, 'oid) settling \<Rightarrow>
     ('num, 'oid) db \<Rightarrow> ('num, 'oid) settling \<times> ('num, 'oid) db" where
  "settle_step cast ops now (Loading mid w) s =
     (case findById cast (matches s) mid of
        Inl e \<Rightarrow> (Finished Unhandled, s)
      | Inr None \<Rightarrow> (Finished (Reply 400 Empty), s)
      | Inr (Some (mk, m0)) \<Rightarrow>
          if status m0 = ''SETTLED'' then (Finished (Reply 400 Empty), s)
          else (Saving mk (m0\<lparr>status := ''SETTLED'', winningTeam := w\<rparr>) w, s))"
| "settle_step cast ops now (Saving mk m w) s =
     (case matches s mk of
        None \<Rightarrow> (Finished Unhandled, s)
      | Some cur \<Rightarrow>
          (Updating mk m 0
             (map (Pair True) (if w = Some ''A'' then teamA m else teamB m)
              @ map (Pair False) (if w = Some ''A'' then teamB m else teamA m)),
           s\<lparr>matches := (matches s)(mk \<mapsto> cur\<lparr>status := status m, winningTeam := winningTeam m\<rparr>)\<rparr>))"
| "settle_step cast ops now (Updating mk m i []) s = (Finished (Reply 200 (MatchDoc mk m)), s)"
| "settle_step cast ops now (Updating mk m i ((win, p) # todo)) s =
     (case findByIdAndUpdate cast (users s) (userId p)
             (inc_balance ops (if win then betAmount p else num_neg ops (betAmount p))) of
        Inl e \<Rightarrow> (Finished Unhandled, s)
      | Inr (u, us) \<Rightarrow> (Recording mk m i win p todo, s\<lparr>users := us\<rparr>))"
| "settle_step cast ops now (Recording mk m i win p todo) s =
     (Updating mk m (Suc i) todo,
      s\<lparr>transactions := transactions s @ [payout_tx ops now win (name m) i p]\<rparr>)"
| "settle_step cast ops now (Finished r) s = (Finished r, s)"

text \<open>\<open>n\<close> database calls of one settle call with nothing in between.\<close>

fun settle_steps ::
  "(string \<Rightarrow> 'oid option) \<Rightarrow> 'num number_ops \<Rightarrow> (nat \<Rightarrow> int) \<Rightarrow> nat \<Rightarrow> ('num, 'oid) settling \<Rightarrow>
     ('num, 'oid) db \<Rightarrow> ('num, 'oid) settling \<times> ('num, 'oid) db" where
  "settle_steps cast ops now 0 c s = (c, s)"
| "settle_steps cast ops now (Suc n) c s =
     (case settle_step cast ops now c s of (c', s') \<Rightarrow> settle_steps cast ops now n c' s')"

text \<open>
  Two settle calls on one database: the schedule tells, call by call to the
  database, which of the two makes the next one (\<open>False\<close> the first, \<open>True\<close> the
  second).
\<close>

fun overlap ::
  "(string \<Rightarrow> 'oid option) \<Rightarrow> 'num number_ops \<Rightarrow> (nat \<Rightarrow> int) \<Rightarrow> (nat \<Rightarrow> int) \<Rightarrow> bool list \<Rightarrow>
     ('num, 'oid) settling \<Rightarrow> ('num, 'oid) settling \<Rightarrow> ('num, 'oid) db \<Rightarrow>
     ('num, 'oid) settling \<times> ('num, 'oid) settling \<times> ('num, 'oid) db" where
  "overlap cast ops now1 now2 [] c1 c2 s = (c1, c2, s)"
| "overlap cast ops now1 now2 (False # sched) c1 c2 s =
     (case settle_step cast ops now1 c1 s of (c1', s') \<Rightarrow> overlap cast ops now1 now2 sched c1' c2 s')"
| "overlap cast ops now1 now2 (True # sched) c1 c2 s =
     (case settle_step cast ops now2 c2 s of (c2', s') \<Rightarrow> overlap cast ops now1 now2 sched c1 c2' s')"

section \<open>POST /api/matches/:id/pay/:userId\<close>

text \<open>\<^verbatim>\<open>team.find(...)\<close> followed by \<^verbatim>\<open>p.paid = true\<close>: the first entry of the
  team with that \<^verbatim>\<open>userId\<close> is marked.\<close>

fun mark_paid :: "string \<Rightarrow> 'num player list \<Rightarrow> 'num player list" where
  "mark_paid uid [] = []"
| "mark_paid uid (p # ps) =
     (if userId p = uid then p\<lparr>paid := True\<rparr> # ps else p # mark_paid uid ps)"

definition pay ::
  "(string \<Rightarrow> 'oid option) \<Rightarrow> 'num number_ops \<Rightarrow> string \<Rightarrow> string \<Rightarrow> ('num, 'oid) db \<Rightarrow>
     ('num, 'oid) reply \<times> ('num, 'oid) db" where
  "pay cast ops mid uid s =
     (case findById cast (matches s) mid of
        Inl e \<Rightarrow> (Reply 400 (Message ''Payment failed''), s)
      | Inr None \<Rightarrow> (Reply 404 (Message ''Match not found''), s)
      | Inr (Some (mk, m0)) \<Rightarrow>
          let found = (find (\<lambda>player. userId player = uid) (teamA m0) \<noteq> None
                       \<or> find (\<lambda>player. userId player = uid) (teamB m0) \<noteq> None);
              m = m0\<lparr>teamA := mark_paid uid (teamA m0), teamB := mark_paid uid (teamB m0)\<rparr>
          in if found then
               let s1 = s\<lparr>matches := (matches s)(mk \<mapsto> m)\<rparr>
               in (case findByIdAndUpdate cast (users s1) uid (inc_totalMatchesPaid ops (num_one ops)) of
                     Inl e \<Rightarrow> (Reply 400 (Message ''Payment failed''), s1)
                   | Inr (u, us) \<Rightarrow> (Reply 200 (MatchDoc mk m), s1\<lparr>users := us\<rparr>))
             else (Reply 404 (Message ''Player not found in match''), s))"

section \<open>GET /api/transactions and GET /api/transactions/:userId\<close>

definition listAll :: "('num, 'oid) db \<Rightarrow> ('num, 'oid) reply" where
  "listAll s = Reply 200 (TxDocs (sort_desc (transactions s)))"

definition listByAccount :: "string \<Rightarrow> ('num, 'oid) db \<Rightarrow> ('num, 'oid) reply" where
  "listByAccount uid s =
     Reply 200 (TxDocs (sort_desc (filter (\<lambda>t. t_userId t = uid) (transactions s))))"

section \<open>PATCH /api/users/:id\<close>

text \<open>
  The request body sets the fields it names. \<^verbatim>\<open>username\<close> and \<^verbatim>\<open>email\<close>
  carry a unique index, checked against the whole collection; a body here names
  none of the two.
\<close>

record 'num user_patch =
  set_pin :: "string option"
  set_role :: "string option"
  set_balance :: "'num option"
  set_isBlocked :: "bool option"
  set_isDeleted :: "bool option"
  set_canCreateMatch :: "bool option"
  set_totalMatchesPaid :: "'num option"
  set_createdAt :: "int option"

definition or_else :: "'a option \<Rightarrow> 'a \<Rightarrow> 'a" where
  "or_else v d = (case v of None \<Rightarrow> d | Some x \<Rightarrow> x)"

definition apply_patch :: "'num user_patch \<Rightarrow> 'num user \<Rightarrow> 'num user" where
  "apply_patch b u =
     u\<lparr>pin := or_else (set_pin b) (pin u),
       role := or_else (set_role b) (role u),
       balance := or_else (set_balance b) (balance u),
       isBlocked := or_else (set_isBlocked b) (isBlocked u),
       isDeleted := or_else (set_isDeleted b) (isDeleted u),
       canCreateMatch := or_else (set_canCreateMatch b) (canCreateMatch u),
       totalMatchesPaid := or_else (set_totalMatchesPaid b) (totalMatchesPaid u),
       u_createdAt := or_else (set_createdAt b) (u_createdAt u)\<rparr>"

definition update_user ::
  "(string \<Rightarrow> 'oid option) \<Rightarrow> string \<Rightarrow> 'num user_patch \<Rightarrow> ('num, 'oid) db \<Rightarrow>
     ('num, 'oid) reply \<times> ('num, 'oid) db" where
  "update_user cast uid body s =
     (case findByIdAndUpdate cast (users s) uid (apply_patch body) of
        Inl e \<Rightarrow> (Reply 400 (Message ''Update failed''), s)
      | Inr (None, us) \<Rightarrow> (Reply 200 Null, s)
      | Inr (Some (k, u), us) \<Rightarrow> (Reply 200 (UserDoc k u), s\<lparr>users := us\<rparr>))"

section \<open>POST /api/matches\<close>

text \<open>
  \<^verbatim>\<open>new Match(req.body)\<close> takes every schema field the body names and the
  schema's defaults for the others. \<open>newId\<close> is the \<^verbatim>\<open>_id\<close> of the new
  document (generated, or the body's); saving under an \<^verbatim>\<open>_id\<close> in use throws a
  duplicate key error, which the handler does not catch.
\<close>

record 'num match_body =
  b_name :: "string option"
  b_teamA :: "'num player list"
  b_teamB :: "'num player list"
  b_winningTeam :: "string option"
  b_status :: "string option"
  b_createdAt :: "int option"

definition new_Match :: "(nat \<Rightarrow> int) \<Rightarrow> 'num match_body \<Rightarrow> 'num match" where
  "new_Match now body =
     \<lparr>name = b_name body, teamA = b_teamA body, teamB = b_teamB body,
       winningTeam = b_winningTeam body,
       status = or_else (b_status body) ''UNDECIDED'',
       createdAt = or_else (b_createdAt body) (now 0)\<rparr>"

definition create_match ::
  "(nat \<Rightarrow> int) \<Rightarrow> 'oid \<Rightarrow> 'num match_body \<Rightarrow> ('num, 'oid) db \<Rightarrow>
     ('num, 'oid) reply \<times> ('num, 'oid) db" where
  "create_match now newId body s =
     (let m = new_Match now body
      in if matches s newId \<noteq> None then (Unhandled, s)
         else (Reply 200 (MatchDoc newId m), s\<lparr>matches := (matches s)(newId \<mapsto> m)\<rparr>))"

section \<open>Sequences of requests\<close>

datatype ('num, 'oid) request =
    Adjust string 'num string
  | Settle string "string option"
  | Pay string string
  | UpdateUser string "'num user_patch"
  | CreateMatch 'oid "'num match_body"

fun serve ::
  "(string \<Rightarrow> 'oid option) \<Rightarrow> 'num number_ops \<Rightarrow> (nat \<Rightarrow> int) \<Rightarrow> ('num, 'oid) request \<Rightarrow>
     ('num, 'oid) db \<Rightarrow> ('num, 'oid) reply \<times> ('num, 'oid) db" where
  "serve cast ops now (Adjust uid amt descr) s = adjust cast ops now uid amt descr s"
| "serve cast ops now (Settle mid w) s = settle cast ops now mid w s"
| "serve cast ops now (Pay mid uid) s = pay cast ops mid uid s"
| "serve cast ops now (UpdateUser uid body) s = update_user cast uid body s"
| "serve cast ops now (CreateMatch newId body) s = create_match now newId body s"

text \<open>\<open>clock n\<close> is the clock as the \<open>n\<close>-th request reads it.\<close>

fun run ::
  "(string \<Rightarrow> 'oid option) \<Rightarrow> 'num number_ops \<Rightarrow> (nat \<Rightarrow> nat \<Rightarrow> int) \<Rightarrow> nat \<Rightarrow>
     ('num, 'oid) request list \<Rightarrow> ('num, 'oid) db \<Rightarrow> ('num, 'oid) db" where
  "run cast ops clock n [] s = s"
| "run cast ops clock n (r # rs) s =
     run cast ops clock (Suc n) rs (snd (serve cast ops (clock n) r s))"

section \<open>Notions the statements use\<close>

text \<open>The amounts one loop adds to the balance of the account \<open>k\<close>, in roster
  order, and the balance \<open>b\<close> after them.\<close>

definition signed :: "'num number_ops \<Rightarrow> bool \<Rightarrow> 'num \<Rightarrow> 'num" where
  "signed ops win x = (if win then x else num_neg ops x)"

definition moves ::
  "'num number_ops \<Rightarrow> (string \<Rightarrow> 'oid option) \<Rightarrow> 'oid \<Rightarrow> bool \<Rightarrow> 'num player list \<Rightarrow> 'num list" where
  "moves ops cast k win ps =
     map (\<lambda>p. signed ops win (betAmount p)) (filter (\<lambda>p. cast (userId p) = Some k) ps)"

definition moved ::
  "'num number_ops \<Rightarrow> (string \<Rightarrow> 'oid option) \<Rightarrow> 'oid \<Rightarrow> bool \<Rightarrow> 'num player list \<Rightarrow> 'num \<Rightarrow> 'num" where
  "moved ops cast k win ps b = foldl (num_add ops) b (moves ops cast k win ps)"

definition credited ::
  "'num number_ops \<Rightarrow> (string \<Rightarrow> 'oid option) \<Rightarrow> bool \<Rightarrow> 'num player list \<Rightarrow>
     ('oid \<rightharpoonup> 'num user) \<Rightarrow> ('oid \<rightharpoonup> 'num user)" where
  "credited ops cast win ps us =
     (\<lambda>k. map_option (\<lambda>u. u\<lparr>balance := moved ops cast k win ps (balance u)\<rparr>) (us k))"

text \<open>The ledger entries one loop writes for the entries \<open>ps\<close>, the first at clock
  reading \<open>i\<close>.\<close>

definition payout_txs ::
  "'num number_ops \<Rightarrow> (nat \<Rightarrow> int) \<Rightarrow> bool \<Rightarrow> string option \<Rightarrow> nat \<Rightarrow> 'num player list \<Rightarrow>
     'num transaction list" where
  "payout_txs ops now win nm i ps =
     map (\<lambda>(j, p). payout_tx ops now win nm j p) (zip [i..<i + length ps] ps)"

text \<open>The entries a loop gets through: those before the first whose \<^verbatim>\<open>userId\<close>
  is no ObjectId. The losers' loop runs only after the winners' loop got through.\<close>

definition castable :: "(string \<Rightarrow> 'oid option) \<Rightarrow> 'num player \<Rightarrow> bool" where
  "castable cast p = (cast (userId p) \<noteq> None)"

definition applied :: "(string \<Rightarrow> 'oid option) \<Rightarrow> 'num player list \<Rightarrow> 'num player list" where
  "applied cast ps = takeWhile (castable cast) ps"

definition applied_after ::
  "(string \<Rightarrow> 'oid option) \<Rightarrow> 'num player list \<Rightarrow> 'num player list \<Rightarrow> 'num player list" where
  "applied_after cast ws ls = (if list_all (castable cast) ws then applied cast ls else [])"




text \<open>The winner is set exactly on the settled matches.\<close>

definition winner_iff_settled :: "('num, 'oid) db \<Rightarrow> bool" where
  "winner_iff_settled s =
     (\<forall>mk m. matches s mk = Some m \<longrightarrow> (winningTeam m \<noteq> None) = (status m = ''SETTLED''))"

text \<open>Requests as the operations of the match record take them: a create body names
  neither \<^verbatim>\<open>status\<close> nor \<^verbatim>\<open>winningTeam\<close>, a settle body names a winningTeam.\<close>

fun plain_request :: "('num, 'oid) request \<Rightarrow> bool" where
  "plain_request (CreateMatch newId body) = (b_status body = None \<and> b_winningTeam body = None)"
| "plain_request (Settle mid w) = (w \<noteq> None)"
| "plain_request r = True"

text \<open>A match with its paid flags blanked: what must not change once it is settled.\<close>

definition forget_paid :: "'num match \<Rightarrow> 'num match" where
  "forget_paid m =
     m\<lparr>teamA := map (\<lambda>p. p\<lparr>paid := False\<rparr>) (teamA m),
       teamB := map (\<lambda>p. p\<lparr>paid := False\<rparr>) (teamB m)\<rparr>"

section \<open>The Numbers of the examples\<close>

text \<open>
  JavaScript's Number on the doubles whose value is an integer, the two infinities
  and NaN: \<open>Finite i\<close> is the double of value \<open>i\<close>, and a sum is rounded to the
  nearest double, a tie to the even one. The negative zero is not told from zero
  (both print as \<^verbatim>\<open>0\<close>, and both pass \<^verbatim>\<open>>= 0\<close>).
\<close>

datatype number = Finite int | Infinity | NegInfinity | NaN

fun bitlen :: "nat \<Rightarrow> nat" where
  "bitlen n = (if n = 0 then 0 else Suc (bitlen (n div 2)))"

declare bitlen.simps [simp del]

definition round53 :: "int \<Rightarrow> number" where
  "round53 x =
     (if \<bar>x\<bar> \<le> 2 ^ 53 then Finite x
      else
        let a = nat \<bar>x\<bar>; e = bitlen a - 53;
            q = a div 2 ^ e; r = a mod 2 ^ e; h = 2 ^ (e - 1);
            q' = (if h < r \<or> (r = h \<and> odd q) then q + 1 else q);
            y = q' * 2 ^ e
        in if 2 ^ 1024 \<le> y then (if x < 0 then NegInfinity else Infinity)
           else Finite (if x < 0 then - int y else int y))"

fun js_add :: "number \<Rightarrow> number \<Rightarrow> number" where
  "js_add (Finite a) (Finite b) = round53 (a + b)"
| "js_add NaN y = NaN"
| "js_add x NaN = NaN"
| "js_add Infinity NegInfinity = NaN"
| "js_add NegInfinity Infinity = NaN"
| "js_add Infinity y = Infinity"
| "js_add NegInfinity y = NegInfinity"
| "js_add (Finite a) y = y"

fun js_neg :: "number \<Rightarrow> number" where
  "js_neg (Finite a) = Finite (- a)"
| "js_neg Infinity = NegInfinity"
| "js_neg NegInfinity = Infinity"
| "js_neg NaN = NaN"

fun js_ge0 :: "number \<Rightarrow> bool" where
  "js_ge0 (Finite a) = (0 \<le> a)"
| "js_ge0 Infinity = True"
| "js_ge0 NegInfinity = False"
| "js_ge0 NaN = False"

text \<open>
  Printing: the decimal digits of the shortest decimal that reads back as the same
  double (of two such the nearer, of two equally near the even one), in full up to
  21 digits and in exponent form beyond. Up to \<open>2 ^ 53\<close> that decimal is the value
  itself.
\<close>

fun digits :: "nat \<Rightarrow> string" where
  "digits n =
     (if n < 10 then [''0123456789'' ! n]
      else digits (n div 10) @ [''0123456789'' ! (n mod 10)])"

declare digits.simps [simp del]

definition candidate :: "nat \<Rightarrow> nat \<Rightarrow> nat option" where
  "candidate v k =
     (let p = 10 ^ (length (digits v) - k);
          lo = (v div p) * p; hi = lo + p;
          okLo = (round53 (int lo) = Finite (int v));
          okHi = (round53 (int hi) = Finite (int v))
      in if okLo \<and> okHi then
           (if v - lo < hi - v then Some lo
            else if hi - v < v - lo then Some hi
            else if even (lo div p) then Some lo else Some hi)
         else if okLo then Some lo
         else if okHi then Some hi
         else None)"

definition shortest :: "nat \<Rightarrow> nat" where
  "shortest v =
     (case List.map_filter (candidate v) [1..<Suc (length (digits v))] of
        [] \<Rightarrow> v
      | d # ds \<Rightarrow> d)"

definition strip_zeros :: "string \<Rightarrow> string" where
  "strip_zeros ds = rev (dropWhile (\<lambda>c. c = CHR ''0'') (rev ds))"

definition show_nat :: "nat \<Rightarrow> string" where
  "show_nat v =
     (let ds = digits (if v \<le> 2 ^ 53 then v else shortest v)
      in if length ds \<le> 21 then ds
         else
           (case strip_zeros ds of
              [] \<Rightarrow> ds
            | c # cs \<Rightarrow>
                (c # (if cs = [] then [] else CHR ''.'' # cs)) @ ''e+'' @ digits (length ds - 1)))"

fun js_show :: "number \<Rightarrow> string" where
  "js_show (Finite a) = (if a < 0 then ''-'' @ show_nat (nat (- a)) else show_nat (nat a))"
| "js_show Infinity = ''Infinity''"
| "js_show NegInfinity = ''-Infinity''"
| "js_show NaN = ''NaN''"

definition js_ops :: "number number_ops" where
  "js_ops = \<lparr>num_add = js_add, num_neg = js_neg, num_ge0 = js_ge0, num_show = js_show,
             num_zero = Finite 0, num_one = Finite 1\<rparr>"

section \<open>The ObjectIds and the databases of the examples\<close>

text \<open>
  The cast the examples use: an ObjectId as a string is 24 hexadecimal digits, read
  without regard to case. (Older drivers also take any string of 12 characters; no
  example below has one.)
\<close>

definition lower_hex :: "char \<Rightarrow> char" where
  "lower_hex c =
     (if c = CHR ''A'' then CHR ''a'' else if c = CHR ''B'' then CHR ''b''
      else if c = CHR ''C'' then CHR ''c'' else if c = CHR ''D'' then CHR ''d''
      else if c = CHR ''E'' then CHR ''e'' else if c = CHR ''F'' then CHR ''f'' else c)"

definition castObjectId :: "string \<Rightarrow> string option" where
  "castObjectId s =
     (if length s = 24 \<and> list_all (\<lambda>c. c \<in> set ''0123456789abcdefABCDEF'') s
      then Some (map lower_hex s) else None)"

definition uid1 :: string where "uid1 = ''650000000000000000000001''"
definition uid2 :: string where "uid2 = ''650000000000000000000002''"
definition uid3 :: string where "uid3 = ''650000000000000000000003''"
definition mid1 :: string where "mid1 = ''65000000000000000000000a''"

definition fresh_user :: "string \<Rightarrow> number user" where
  "fresh_user n =
     \<lparr>u_username = n, email = n @ ''@grid'', pin = ''0000'', role = ''PLAYER'',
       balance = Finite 0, isBlocked = False, isDeleted = False, canCreateMatch = False,
       totalMatchesPaid = Finite 0, u_createdAt = 0\<rparr>"

definition alpha_beta :: "number match" where
  "alpha_beta =
     \<lparr>name = Some ''Alpha vs Beta'',
       teamA = [\<lparr>userId = uid1, username = ''p1'', betAmount = Finite 100, paid = False\<rparr>],
       teamB = [\<lparr>userId = uid2, username = ''p2'', betAmount = Finite 100, paid = False\<rparr>],
       winningTeam = None, status = ''UNDECIDED'', createdAt = 0\<rparr>"

definition db0 :: "(number, string) db" where
  "db0 =
     \<lparr>users = [uid1 \<mapsto> fresh_user ''p1'', uid2 \<mapsto> fresh_user ''p2''],
       matches = [mid1 \<mapsto> alpha_beta],
       transactions = [], notifications = []\<rparr>"

text \<open>A match whose second roster names a player by a string that is no ObjectId.\<close>

definition lopsided :: "number match" where
  "lopsided =
     \<lparr>name = Some ''Alpha vs Beta'',
       teamA = [\<lparr>userId = uid1, username = ''p1'', betAmount = Finite 100, paid = False\<rparr>],
       teamB = [\<lparr>userId = ''p2'', username = ''p2'', betAmount = Finite 100, paid = False\<rparr>],
       winningTeam = None, status = ''UNDECIDED'', createdAt = 0\<rparr>"

definition db_bad :: "(number, string) db" where
  "db_bad = db0\<lparr>matches := [mid1 \<mapsto> lopsided]\<rparr>"

text \<open>A match whose second roster names first a player with no account (\<open>uid3\<close> is an
  ObjectId, and no user is stored under it), then one by a string that is no
  ObjectId.\<close>

definition stray :: "number match" where
  "stray =
     \<lparr>name = Some ''Alpha vs Beta'',
       teamA = [\<lparr>userId = uid1, username = ''p1'', betAmount = Finite 100, paid = False\<rparr>],
       teamB = [\<lparr>userId = uid3, username = ''p3'', betAmount = Finite 100, paid = False\<rparr>,
                \<lparr>userId = ''p2'', username = ''p2'', betAmount = Finite 100, paid = False\<rparr>],
       winningTeam = None, status = ''UNDECIDED'', createdAt = 0\<rparr>"

definition db_stray :: "(number, string) db" where
  "db_stray = db0\<lparr>matches := [mid1 \<mapsto> stray]\<rparr>"

text \<open>A ledger whose entries are not in the order of their timestamps.\<close>

definition db_ledger :: "(number, string) db" where
  "db_ledger = db0\<lparr>transactions :=
     [\<lparr>t_userId = uid1, amount = Finite 100, t_type = ''WIN'', description = ''Victory: x'',
        timestamp = 1000\<rparr>,
      \<lparr>t_userId = uid2, amount = Finite (- 100), t_type = ''LOSS'', description = ''Defeat: x'',
        timestamp = 1002\<rparr>,
      \<lparr>t_userId = uid1, amount = Finite (- 30), t_type = ''ADMIN_ADJUST'',
        description = ''penalty'', timestamp = 1001\<rparr>]\<rparr>"

definition db_empty :: "(number, string) db" where
  "db_empty = \<lparr>users = Map.empty, matches = Map.empty, transactions = [], notifications = []\<rparr>"

definition alpha_body :: "number match_body" where
  "alpha_body =
     \<lparr>b_name = Some ''Alpha vs Beta'',
       b_teamA = [\<lparr>userId = uid1, username = ''p1'', betAmount = Finite 100, paid = False\<rparr>],
       b_teamB = [\<lparr>userId = uid2, username = ''p2'', betAmount = Finite 100, paid = False\<rparr>],
       b_winningTeam = None, b_status = None, b_createdAt = None\<rparr>"



definition winner_body :: "number match_body" where
  "winner_body = alpha_body\<lparr>b_winningTeam := Some ''A''\<rparr>"

definition tick :: "nat \<Rightarrow> int" where
  "tick i = 1000 + int i"

text \<open>Two overlapping settle calls: both load the match, then the first makes its
  six other calls to the database, then the second.\<close>

definition both_read_first :: "bool list" where
  "both_read_first = [False, True] @ replicate 6 False @ replicate 6 True"

section \<open>Facts about the examples\<close>

lemma cast_uid1: "castObjectId uid1 = Some uid1"
  by (simp add: castObjectId_def uid1_def lower_hex_def)

lemma cast_uid2: "castObjectId uid2 = Some uid2"
  by (simp add: castObjectId_def uid2_def lower_hex_def)

lemma cast_uid3: "castObjectId uid3 = Some uid3"
  by (simp add: castObjectId_def uid3_def lower_hex_def)

lemma cast_mid1: "castObjectId mid1 = Some mid1"
  by (simp add: castObjectId_def mid1_def lower_hex_def)

lemma uid1_neq_uid2: "uid1 \<noteq> uid2" "uid2 \<noteq> uid1"
  by (simp_all add: uid1_def uid2_def)

lemma uid3_neq: "uid3 \<noteq> uid1" "uid3 \<noteq> uid2" "uid1 \<noteq> uid3" "uid2 \<noteq> uid3"
  by (simp_all add: uid1_def uid2_def uid3_def)

lemma mid1_neq: "mid1 \<noteq> uid1" "mid1 \<noteq> uid2"
  by (simp_all add: mid1_def uid1_def uid2_def)

lemma cast_p1: "castObjectId ''p1'' = None"
  by (simp add: castObjectId_def)

lemma cast_p2: "castObjectId ''p2'' = None"
  by (simp add: castObjectId_def)

lemma js_ops_simps:
  "num_add js_ops = js_add" "num_neg js_ops = js_neg" "num_ge0 js_ops = js_ge0"
  "num_show js_ops = js_show" "num_zero js_ops = Finite 0" "num_one js_ops = Finite 1"
  by (simp_all add: js_ops_def)

lemma round53_small: "\<bar>x\<bar> \<le> 2 ^ 53 \<Longrightarrow> round53 x = Finite x"
  by (simp add: round53_def)

lemma js_add_small: "\<bar>a + b\<bar> \<le> 2 ^ 53 \<Longrightarrow> js_add (Finite a) (Finite b) = Finite (a + b)"
  by (simp add: round53_def)

lemma js_show_small:
  "js_show (Finite (- 30)) = ''-30''" "js_show (Finite 0) = ''0''" "js_show (Finite 100) = ''100''"
  by (simp_all add: show_nat_def digits.simps)

lemma db0_match: "matches db0 mid1 = Some alpha_beta"
  by (simp add: db0_def)

lemma db_bad_match: "matches db_bad mid1 = Some lopsided"
  by (simp add: db_bad_def)

lemma db_stray_match: "matches db_stray mid1 = Some stray"
  by (simp add: db_stray_def)

lemma alpha_beta_fields:
  "status alpha_beta = ''UNDECIDED''"
  "name alpha_beta = Some ''Alpha vs Beta''"
  "teamA alpha_beta = [\<lparr>userId = uid1, username = ''p1'', betAmount = Finite 100, paid = False\<rparr>]"
  "teamB alpha_beta = [\<lparr>userId = uid2, username = ''p2'', betAmount = Finite 100, paid = False\<rparr>]"
  "winningTeam alpha_beta = None"
  by (simp_all add: alpha_beta_def)

lemma alpha_beta_unsettled: "status alpha_beta \<noteq> ''SETTLED''"
  by (simp add: alpha_beta_def)

lemma lopsided_unsettled: "status lopsided \<noteq> ''SETTLED''"
  by (simp add: lopsided_def)

lemma stray_unsettled: "status stray \<noteq> ''SETTLED''"
  by (simp add: stray_def)

lemma db0_users:
  "users db0 uid1 = Some (fresh_user ''p1'')" "users db0 uid2 = Some (fresh_user ''p2'')"
  by (simp_all add: db0_def uid1_neq_uid2)

lemma db0_castable:
  "\<forall>p\<in>set (teamA alpha_beta @ teamB alpha_beta). castObjectId (userId p) \<noteq> None"
  by (simp add: alpha_beta_fields cast_uid1 cast_uid2)

lemma db0_accounts:
  "\<forall>p\<in>set (teamA alpha_beta @ teamB alpha_beta).
     \<exists>k. castObjectId (userId p) = Some k \<and> users db0 k \<noteq> None"
  by (simp add: alpha_beta_fields cast_uid1 cast_uid2 db0_users)

section \<open>The loops of settle in closed form\<close>

lemma moved_Nil: "moved ops cast k win [] b = b"
  by (simp add: moved_def moves_def)

lemma moved_Cons:
  "moved ops cast k win (p # ps) b =
     moved ops cast k win ps
       (if cast (userId p) = Some k then num_add ops b (signed ops win (betAmount p)) else b)"
  by (simp add: moved_def moves_def)

lemma payout_txs_Nil: "payout_txs ops now win nm i [] = []"
  by (simp add: payout_txs_def)

lemma payout_txs_Cons:
  "payout_txs ops now win nm i (p # ps) =
     payout_tx ops now win nm i p # payout_txs ops now win nm (Suc i) ps"
proof -
  have "[i..<i + length (p # ps)] = i # [Suc i..<i + length (p # ps)]"
    by (rule upt_conv_Cons) simp
  then show ?thesis
    by (simp add: payout_txs_def del: upt_Suc)
qed

lemma credited_Nil: "credited ops cast win [] us = us"
  by (rule ext) (simp add: credited_def moved_Nil option.map_ident cong: option.map_cong)

lemma credited_Cons:
  "cast (userId p) = Some k0 \<Longrightarrow>
   credited ops cast win ps
     (case us k0 of None \<Rightarrow> us
      | Some u \<Rightarrow> us(k0 \<mapsto> inc_balance ops (signed ops win (betAmount p)) u))
     = credited ops cast win (p # ps) us"
proof (rule ext)
  fix x
  assume k0: "cast (userId p) = Some k0"
  show "credited ops cast win ps
     (case us k0 of None \<Rightarrow> us
      | Some u \<Rightarrow> us(k0 \<mapsto> inc_balance ops (signed ops win (betAmount p)) u)) x
     = credited ops cast win (p # ps) us x"
  proof (cases "x = k0")
    case True
    then show ?thesis
      using k0 by (cases "us k0") (simp_all add: credited_def moved_Cons inc_balance_def)
  next
    case False
    then have "Some k0 \<noteq> Some x"
      by simp
    then show ?thesis
      using k0 False by (cases "us k0") (simp_all add: credited_def moved_Cons)
  qed
qed

lemma payout_loop_applied:
  "payout_loop cast ops now win nm i ps s =
     (if list_all (castable cast) ps then Inr else Inl)
       (s\<lparr>users := credited ops cast win (applied cast ps) (users s),
          transactions := transactions s @ payout_txs ops now win nm i (applied cast ps)\<rparr>)"
proof (induction ps arbitrary: s i)
  case Nil
  show ?case by (simp add: applied_def credited_Nil payout_txs_Nil)
next
  case (Cons p ps)
  show ?case
  proof (cases "cast (userId p)")
    case None
    then show ?thesis
      by (simp add: findByIdAndUpdate_def applied_def castable_def credited_Nil payout_txs_Nil)
  next
    case (Some k0)
    let ?us = "case users s k0 of None \<Rightarrow> users s
               | Some u \<Rightarrow> (users s)(k0 \<mapsto> inc_balance ops (signed ops win (betAmount p)) u)"
    have step: "payout_loop cast ops now win nm i (p # ps) s =
        payout_loop cast ops now win nm (Suc i) ps
          (s\<lparr>users := ?us, transactions := transactions s @ [payout_tx ops now win nm i p]\<rparr>)"
      by (simp add: findByIdAndUpdate_def Some signed_def split: option.splits)
    have ap: "applied cast (p # ps) = p # applied cast ps"
      by (simp add: applied_def castable_def Some)
    have la: "list_all (castable cast) (p # ps) = list_all (castable cast) ps"
      by (simp add: castable_def Some)
    show ?thesis
      unfolding step Cons.IH ap la
      by (simp add: credited_Cons [of cast p k0, OF Some] payout_txs_Cons)
  qed
qed

lemma applied_all: "list_all (castable cast) ps \<Longrightarrow> applied cast ps = ps"
  by (simp add: applied_def list_all_iff)

lemma credited_twice:
  "credited ops cast False ls (credited ops cast True ws us) =
     (\<lambda>k. map_option
        (\<lambda>u. u\<lparr>balance := moved ops cast k False ls (moved ops cast k True ws (balance u))\<rparr>)
        (us k))"
  by (rule ext) (simp add: credited_def option.map_comp comp_def)

text \<open>settle on a stored match that is not yet settled: the match is saved as settled,
  then the winners' loop runs, then the losers'.\<close>

lemma settle_unsettled:
  assumes "cast mid = Some mk" and "matches s mk = Some m0" and "status m0 \<noteq> ''SETTLED''"
  shows "settle cast ops now mid w s =
     (let m = m0\<lparr>status := ''SETTLED'', winningTeam := w\<rparr>;
          ws = (if w = Some ''A'' then teamA m0 else teamB m0);
          ls = (if w = Some ''A'' then teamB m0 else teamA m0)
      in (if list_all (castable cast) (ws @ ls) then Reply 200 (MatchDoc mk m) else Unhandled,
          s\<lparr>users := (\<lambda>k. map_option
                 (\<lambda>u. u\<lparr>balance := moved ops cast k False (applied_after cast ws ls)
                                       (moved ops cast k True (applied cast ws) (balance u))\<rparr>)
                 (users s k)),
            matches := (matches s)(mk \<mapsto> m),
            transactions := transactions s
               @ payout_txs ops now True (name m0) 0 (applied cast ws)
               @ payout_txs ops now False (name m0) (length ws) (applied_after cast ws ls)\<rparr>))"
proof (cases "w = Some ''A''")
  case True
  show ?thesis
    using assms True
    by (simp add: settle_def findById_def Let_def payout_loop_applied applied_after_def
        credited_twice [symmetric] credited_Nil payout_txs_Nil)
next
  case False
  show ?thesis
    using assms False
    by (simp add: settle_def findById_def Let_def payout_loop_applied applied_after_def
        credited_twice [symmetric] credited_Nil payout_txs_Nil)
qed

lemma settle_settled:
  "cast mid = Some mk \<Longrightarrow> matches s mk = Some m \<Longrightarrow> status m = ''SETTLED'' \<Longrightarrow>
   settle cast ops now mid w s = (Reply 400 Empty, s)"
  by (simp add: settle_def findById_def)

lemma settle_stores_settled:
  assumes "cast mid = Some mk" and "matches s mk = Some m0" and "status m0 \<noteq> ''SETTLED''"
  shows "matches (snd (settle cast ops now mid w s)) mk
           = Some (m0\<lparr>status := ''SETTLED'', winningTeam := w\<rparr>)"
  unfolding settle_unsettled [where cast = cast and mid = mid, OF assms]
  by (simp add: Let_def)

lemma list_all_castable_append:
  "list_all (castable cast) (ws @ ls) = (applied cast ws = ws \<and> applied_after cast ws ls = ls)"
  by (auto simp: applied_def applied_after_def list_all_iff takeWhile_eq_all_conv)

lemma settle_cases:
  obtains (same) "snd (settle cast ops now mid w s) = s"
  | (unsettled) mk m0 where "cast mid = Some mk" "matches s mk = Some m0" "status m0 \<noteq> ''SETTLED''"
proof (cases "cast mid")
  case None
  then have "snd (settle cast ops now mid w s) = s"
    by (simp add: settle_def findById_def)
  then show ?thesis by (rule same)
next
  case (Some mk)
  show ?thesis
  proof (cases "matches s mk")
    case None
    then have "snd (settle cast ops now mid w s) = s"
      using Some by (simp add: settle_def findById_def)
    then show ?thesis by (rule same)
  next
    case (Some m0)
    show ?thesis
    proof (cases "status m0 = ''SETTLED''")
      case True
      then have "snd (settle cast ops now mid w s) = s"
        using \<open>cast mid = Some mk\<close> Some by (simp add: settle_def findById_def)
      then show ?thesis by (rule same)
    next
      case False
      show ?thesis
        by (rule unsettled [OF \<open>cast mid = Some mk\<close> Some False])
    qed
  qed
qed

section \<open>The calls of settle one by one\<close>

lemma settle_steps_Finished: "settle_steps cast ops now n (Finished r) s = (Finished r, s)"
  by (induction n) simp_all

lemma settle_steps_add:
  "settle_steps cast ops now (a + b) c s =
     (case settle_steps cast ops now a c s of (c', s') \<Rightarrow> settle_steps cast ops now b c' s')"
  by (induction a arbitrary: c s) (simp_all split: prod.splits)

lemma settle_steps_loop:
  "settle_steps cast ops now (2 * length ps) (Updating mk m i (map (Pair win) ps @ rest)) s =
     (case payout_loop cast ops now win (name m) i ps s of
        Inl s' \<Rightarrow> (Finished Unhandled, s')
      | Inr s' \<Rightarrow> (Updating mk m (i + length ps) rest, s'))"
proof (induction ps arbitrary: i s)
  case Nil
  show ?case by simp
next
  case (Cons p ps)
  show ?case
  proof (cases "findByIdAndUpdate cast (users s) (userId p)
             (inc_balance ops (if win then betAmount p else num_neg ops (betAmount p)))")
    case (Inl e)
    then show ?thesis
      by (simp add: settle_steps_Finished)
  next
    case (Inr r)
    obtain u us where r: "r = (u, us)"
      by (cases r)
    show ?thesis
      using Inr r by (simp add: Cons.IH split: sum.splits)
  qed
qed

lemma settle_steps_loop0:
  "settle_steps cast ops now (2 * length ps) (Updating mk m 0 (map (Pair win) ps @ rest)) s =
     (case payout_loop cast ops now win (name m) 0 ps s of
        Inl s' \<Rightarrow> (Finished Unhandled, s')
      | Inr s' \<Rightarrow> (Updating mk m (length ps) rest, s'))"
  using settle_steps_loop [of cast ops now ps mk m 0 win rest s]
  by (simp cong: sum.case_cong)

lemma settle_steps_loop_last:
  "settle_steps cast ops now (2 * length ps + 1) (Updating mk m i (map (Pair win) ps)) s =
     (case payout_loop cast ops now win (name m) i ps s of
        Inl s' \<Rightarrow> (Finished Unhandled, s')
      | Inr s' \<Rightarrow> (Finished (Reply 200 (MatchDoc mk m)), s'))"
proof -
  have "settle_steps cast ops now (2 * length ps + 1) (Updating mk m i (map (Pair win) ps)) s
      = (case settle_steps cast ops now (2 * length ps) (Updating mk m i (map (Pair win) ps)) s of
           (c', s') \<Rightarrow> settle_steps cast ops now 1 c' s')"
    by (rule settle_steps_add)
  also have "settle_steps cast ops now (2 * length ps) (Updating mk m i (map (Pair win) ps)) s
      = (case payout_loop cast ops now win (name m) i ps s of
           Inl s' \<Rightarrow> (Finished Unhandled, s')
         | Inr s' \<Rightarrow> (Updating mk m (i + length ps) [], s'))"
    using settle_steps_loop [of cast ops now ps mk m i win "[]" s] by simp
  finally show ?thesis
    by (simp split: sum.splits)
qed

lemma settle_steps_unsettled:
  assumes "cast mid = Some mk" and "matches s mk = Some m0" and "status m0 \<noteq> ''SETTLED''"
  shows "settle_steps cast ops now (2 + (2 * length (if w = Some ''A'' then teamA m0 else teamB m0)
            + (2 * length (if w = Some ''A'' then teamB m0 else teamA m0) + 1))) (Loading mid w) s
     = (Finished (fst (settle cast ops now mid w s)), snd (settle cast ops now mid w s))"
proof -
  define m where "m = m0\<lparr>status := ''SETTLED'', winningTeam := w\<rparr>"
  define ws where "ws = (if w = Some ''A'' then teamA m0 else teamB m0)"
  define ls where "ls = (if w = Some ''A'' then teamB m0 else teamA m0)"
  define s1 where "s1 = s\<lparr>matches := (matches s)(mk \<mapsto> m)\<rparr>"
  have nm: "name m = name m0"
    by (simp add: m_def)
  have two: "settle_steps cast ops now 2 (Loading mid w) s
      = (Updating mk m 0 (map (Pair True) ws @ map (Pair False) ls), s1)"
    using assms by (simp add: numeral_2_eq_2 findById_def m_def ws_def ls_def s1_def)
  have st: "settle cast ops now mid w s =
      (case payout_loop cast ops now True (name m) 0 ws s1 of
         Inl s2 \<Rightarrow> (Unhandled, s2)
       | Inr s2 \<Rightarrow>
           (case payout_loop cast ops now False (name m) (length ws) ls s2 of
              Inl s3 \<Rightarrow> (Unhandled, s3)
            | Inr s3 \<Rightarrow> (Reply 200 (MatchDoc mk m), s3)))"
    using assms
    by (simp add: settle_def findById_def Let_def m_def ws_def ls_def s1_def cong: sum.case_cong)
  define A where "A = 2 * length ws"
  define B where "B = 2 * length ls + 1"
  have first: "settle_steps cast ops now A (Updating mk m 0 (map (Pair True) ws @ map (Pair False) ls)) s1
      = (case payout_loop cast ops now True (name m) 0 ws s1 of
           Inl s' \<Rightarrow> (Finished Unhandled, s')
         | Inr s' \<Rightarrow> (Updating mk m (length ws) (map (Pair False) ls), s'))"
    unfolding A_def by (rule settle_steps_loop0)
  have last: "settle_steps cast ops now B (Updating mk m (length ws) (map (Pair False) ls)) s2
      = (case payout_loop cast ops now False (name m) (length ws) ls s2 of
           Inl s' \<Rightarrow> (Finished Unhandled, s')
         | Inr s' \<Rightarrow> (Finished (Reply 200 (MatchDoc mk m)), s'))" for s2
    unfolding B_def by (rule settle_steps_loop_last)
  have "settle_steps cast ops now (2 + (A + B)) (Loading mid w) s
      = settle_steps cast ops now (A + B) (Updating mk m 0 (map (Pair True) ws @ map (Pair False) ls)) s1"
    unfolding settle_steps_add [of cast ops now 2] two by simp
  also have "\<dots> = (case settle_steps cast ops now A
                         (Updating mk m 0 (map (Pair True) ws @ map (Pair False) ls)) s1 of
                     (c', s') \<Rightarrow> settle_steps cast ops now B c' s')"
    by (rule settle_steps_add)
  also have "\<dots> = (Finished (fst (settle cast ops now mid w s)), snd (settle cast ops now mid w s))"
    unfolding first st
    by (simp add: last settle_steps_Finished split: sum.splits)
  finally show ?thesis
    by (simp only: A_def B_def ws_def ls_def)
qed

text \<open>The handler as one step is its database calls run with nothing in between.\<close>

lemma settle_is_settle_steps:
  "\<exists>n. settle_steps cast ops now n (Loading mid w) s
     = (Finished (fst (settle cast ops now mid w s)), snd (settle cast ops now mid w s))"
proof (cases "cast mid")
  case None
  then have "settle_steps cast ops now 1 (Loading mid w) s
     = (Finished (fst (settle cast ops now mid w s)), snd (settle cast ops now mid w s))"
    by (simp add: settle_def findById_def)
  then show ?thesis ..
next
  case (Some mk)
  show ?thesis
  proof (cases "matches s mk")
    case None
    then have "settle_steps cast ops now 1 (Loading mid w) s
       = (Finished (fst (settle cast ops now mid w s)), snd (settle cast ops now mid w s))"
      using Some by (simp add: settle_def findById_def)
    then show ?thesis ..
  next
    case m0: (Some m0)
    show ?thesis
    proof (cases "status m0 = ''SETTLED''")
      case True
      then have "settle_steps cast ops now 1 (Loading mid w) s
         = (Finished (fst (settle cast ops now mid w s)), snd (settle cast ops now mid w s))"
        using Some m0 by (simp add: settle_def findById_def)
      then show ?thesis ..
    next
      case False
      from settle_steps_unsettled [where cast = cast and mid = mid, OF Some m0 False]
      show ?thesis ..
    qed
  qed
qed

section \<open>Settling twice\<close>

text \<open>
  C1, as the code has it. A call of settle that finds the match stored with status
  SETTLED is answered with 400 and an empty body and writes nothing: the database
  after it is the database before it, as one step of the handler and as the one
  database call the handler then makes. So a second call that loads the match after
  the first call has saved it changes no balance, no ledger entry and no match,
  whether the first call has finished or is still paying. (Nothing keeps a second
  call from loading the match before the first has saved it.)
\<close>

theorem settle_after_save_rejected:
  assumes "cast mid = Some mk" and "matches s mk = Some m" and "status m = ''SETTLED''"
  shows "settle cast ops now mid w s = (Reply 400 Empty, s)
       \<and> settle_step cast ops now (Loading mid w) s = (Finished (Reply 400 Empty), s)"
  using assms by (simp add: settle_settled [where cast = cast and mid = mid] findById_def)

lemma db0_saved:
  "settle_steps castObjectId js_ops tick 2 (Loading mid1 (Some ''A'')) db0
     = (Updating mid1 (alpha_beta\<lparr>status := ''SETTLED'', winningTeam := Some ''A''\<rparr>) 0
          [(True, \<lparr>userId = uid1, username = ''p1'', betAmount = Finite 100, paid = False\<rparr>),
           (False, \<lparr>userId = uid2, username = ''p2'', betAmount = Finite 100, paid = False\<rparr>)],
        db0\<lparr>matches := [mid1 \<mapsto> alpha_beta\<lparr>status := ''SETTLED'', winningTeam := Some ''A''\<rparr>]\<rparr>)"
  by (simp add: numeral_2_eq_2 findById_def cast_mid1 db0_def alpha_beta_def)

theorem settle_after_save_rejected_witness:
  "settle castObjectId js_ops tick mid1 (Some ''B'')
       (snd (settle castObjectId js_ops tick mid1 (Some ''A'') db0))
     = (Reply 400 Empty, snd (settle castObjectId js_ops tick mid1 (Some ''A'') db0))
   \<and> snd (overlap castObjectId js_ops tick tick [False, False, True]
            (Loading mid1 (Some ''A'')) (Loading mid1 (Some ''B'')) db0)
     = (Finished (Reply 400 Empty),
        db0\<lparr>matches := [mid1 \<mapsto> alpha_beta\<lparr>status := ''SETTLED'', winningTeam := Some ''A''\<rparr>]\<rparr>)"
proof -
  let ?m = "alpha_beta\<lparr>status := ''SETTLED'', winningTeam := Some ''A''\<rparr>"
  have m: "matches (snd (settle castObjectId js_ops tick mid1 (Some ''A'') db0)) mid1 = Some ?m"
    by (rule settle_stores_settled [where cast = castObjectId and mid = mid1,
          OF cast_mid1 db0_match alpha_beta_unsettled])
  have st: "status ?m = ''SETTLED''"
    by simp
  have m2: "matches (db0\<lparr>matches := [mid1 \<mapsto> ?m]\<rparr>) mid1 = Some ?m"
    by simp
  have two: "overlap castObjectId js_ops tick tick [False, False, True]
            (Loading mid1 (Some ''A'')) (Loading mid1 (Some ''B'')) db0
      = (case settle_steps castObjectId js_ops tick 2 (Loading mid1 (Some ''A'')) db0 of
           (c1, s) \<Rightarrow>
             (case settle_step castObjectId js_ops tick (Loading mid1 (Some ''B'')) s of
                (c2, s') \<Rightarrow> (c1, c2, s')))"
    by (simp add: numeral_2_eq_2 split: prod.splits)
  show ?thesis
    using settle_after_save_rejected [where cast = castObjectId and mid = mid1
        and ops = js_ops and now = tick and w = "Some ''B''", OF cast_mid1 m st]
      settle_after_save_rejected [where cast = castObjectId and mid = mid1
        and ops = js_ops and now = tick and w = "Some ''B''", OF cast_mid1 m2 st]
    unfolding two db0_saved
    by simp
qed

text \<open>The claim as stated fails for two overlapping calls: both load the match while
  it is UNDECIDED, both save it as SETTLED and both pay. Each is answered 200, the
  winner is credited twice, the loser charged twice, and the ledger holds four
  entries.\<close>

lemma first_pays:
  "settle_steps castObjectId js_ops tick 5
      (Updating mid1 (alpha_beta\<lparr>status := ''SETTLED'', winningTeam := Some ''A''\<rparr>) 0
          [(True, \<lparr>userId = uid1, username = ''p1'', betAmount = Finite 100, paid = False\<rparr>),
           (False, \<lparr>userId = uid2, username = ''p2'', betAmount = Finite 100, paid = False\<rparr>)])
      s
   = (Finished (Reply 200 (MatchDoc mid1 (alpha_beta\<lparr>status := ''SETTLED'', winningTeam := Some ''A''\<rparr>))),
      s\<lparr>users := (let us = (case users s uid1 of None \<Rightarrow> users s
                               | Some u \<Rightarrow> (users s)(uid1 \<mapsto> inc_balance js_ops (Finite 100) u))
                   in (case us uid2 of None \<Rightarrow> us
                       | Some u \<Rightarrow> us(uid2 \<mapsto> inc_balance js_ops (Finite (- 100)) u))),
        transactions := transactions s @
          [\<lparr>t_userId = uid1, amount = Finite 100, t_type = ''WIN'',
             description = ''Victory: Alpha vs Beta'', timestamp = 1000\<rparr>,
           \<lparr>t_userId = uid2, amount = Finite (- 100), t_type = ''LOSS'',
             description = ''Defeat: Alpha vs Beta'', timestamp = 1001\<rparr>]\<rparr>)"
  by (simp add: eval_nat_numeral findByIdAndUpdate_def cast_uid1 cast_uid2 Let_def
      payout_tx_def show_name_def alpha_beta_def tick_def js_ops_simps
      split: option.splits)

lemma overlap_append:
  "overlap cast ops now1 now2 (xs @ ys) c1 c2 s =
     (case overlap cast ops now1 now2 xs c1 c2 s of
        (c1', c2', s') \<Rightarrow> overlap cast ops now1 now2 ys c1' c2' s')"
proof (induction xs arbitrary: c1 c2 s)
  case Nil
  show ?case by simp
next
  case (Cons b xs)
  then show ?case
    by (cases b) (simp_all split: prod.splits)
qed

lemma overlap_first:
  "overlap cast ops now1 now2 (replicate n False) c1 c2 s =
     (case settle_steps cast ops now1 n c1 s of (c1', s') \<Rightarrow> (c1', c2, s'))"
  by (induction n arbitrary: c1 s) (simp_all split: prod.splits)

lemma overlap_second:
  "overlap cast ops now1 now2 (replicate n True) c1 c2 s =
     (case settle_steps cast ops now2 n c2 s of (c2', s') \<Rightarrow> (c1, c2', s'))"
  by (induction n arbitrary: c2 s) (simp_all split: prod.splits)

lemma settle_steps_1: "settle_steps cast ops now 1 c s = settle_step cast ops now c s"
  by (simp split: prod.splits)

lemma six_steps:
  "matches s mid1 = Some (alpha_beta\<lparr>status := st, winningTeam := wt\<rparr>) \<Longrightarrow>
   settle_steps castObjectId js_ops tick 6
      (Saving mid1 (alpha_beta\<lparr>status := ''SETTLED'', winningTeam := Some ''A''\<rparr>) (Some ''A'')) s
   = (Finished (Reply 200 (MatchDoc mid1 (alpha_beta\<lparr>status := ''SETTLED'', winningTeam := Some ''A''\<rparr>))),
      s\<lparr>users := (let us = (case users s uid1 of None \<Rightarrow> users s
                               | Some u \<Rightarrow> (users s)(uid1 \<mapsto> inc_balance js_ops (Finite 100) u))
                   in (case us uid2 of None \<Rightarrow> us
                       | Some u \<Rightarrow> us(uid2 \<mapsto> inc_balance js_ops (Finite (- 100)) u))),
        matches := (matches s)(mid1 \<mapsto> alpha_beta\<lparr>status := ''SETTLED'', winningTeam := Some ''A''\<rparr>),
        transactions := transactions s @
          [\<lparr>t_userId = uid1, amount = Finite 100, t_type = ''WIN'',
             description = ''Victory: Alpha vs Beta'', timestamp = 1000\<rparr>,
           \<lparr>t_userId = uid2, amount = Finite (- 100), t_type = ''LOSS'',
             description = ''Defeat: Alpha vs Beta'', timestamp = 1001\<rparr>]\<rparr>)"
proof -
  assume m: "matches s mid1 = Some (alpha_beta\<lparr>status := st, winningTeam := wt\<rparr>)"
  have one: "settle_step castObjectId js_ops tick
      (Saving mid1 (alpha_beta\<lparr>status := ''SETTLED'', winningTeam := Some ''A''\<rparr>) (Some ''A'')) s
    = (Updating mid1 (alpha_beta\<lparr>status := ''SETTLED'', winningTeam := Some ''A''\<rparr>) 0
          [(True, \<lparr>userId = uid1, username = ''p1'', betAmount = Finite 100, paid = False\<rparr>),
           (False, \<lparr>userId = uid2, username = ''p2'', betAmount = Finite 100, paid = False\<rparr>)],
       s\<lparr>matches := (matches s)(mid1 \<mapsto> alpha_beta\<lparr>status := ''SETTLED'', winningTeam := Some ''A''\<rparr>)\<rparr>)"
    by (simp add: m alpha_beta_def)
  have "settle_steps castObjectId js_ops tick 6
      (Saving mid1 (alpha_beta\<lparr>status := ''SETTLED'', winningTeam := Some ''A''\<rparr>) (Some ''A'')) s
    = settle_steps castObjectId js_ops tick (1 + 5)
      (Saving mid1 (alpha_beta\<lparr>status := ''SETTLED'', winningTeam := Some ''A''\<rparr>) (Some ''A'')) s"
    by simp
  also have "\<dots> = (case settle_steps castObjectId js_ops tick 1
          (Saving mid1 (alpha_beta\<lparr>status := ''SETTLED'', winningTeam := Some ''A''\<rparr>) (Some ''A'')) s of
         (c', s') \<Rightarrow> settle_steps castObjectId js_ops tick 5 c' s')"
    by (rule settle_steps_add)
  finally show ?thesis
    unfolding settle_steps_1 one prod.case first_pays
    by (simp add: Let_def cong: option.case_cong)
qed

theorem overlapping_settles_counterexample:
  "fst (overlap castObjectId js_ops tick tick both_read_first
          (Loading mid1 (Some ''A'')) (Loading mid1 (Some ''A'')) db0)
     = Finished (Reply 200 (MatchDoc mid1 (alpha_beta\<lparr>status := ''SETTLED'', winningTeam := Some ''A''\<rparr>)))
   \<and> fst (snd (overlap castObjectId js_ops tick tick both_read_first
          (Loading mid1 (Some ''A'')) (Loading mid1 (Some ''A'')) db0))
     = Finished (Reply 200 (MatchDoc mid1 (alpha_beta\<lparr>status := ''SETTLED'', winningTeam := Some ''A''\<rparr>)))
   \<and> map_option balance (users (snd (snd (overlap castObjectId js_ops tick tick both_read_first
          (Loading mid1 (Some ''A'')) (Loading mid1 (Some ''A'')) db0))) uid1)
     = Some (Finite 200)
   \<and> map_option balance (users (snd (snd (overlap castObjectId js_ops tick tick both_read_first
          (Loading mid1 (Some ''A'')) (Loading mid1 (Some ''A'')) db0))) uid2)
     = Some (Finite (- 200))
   \<and> map amount (transactions (snd (snd (overlap castObjectId js_ops tick tick both_read_first
          (Loading mid1 (Some ''A'')) (Loading mid1 (Some ''A'')) db0))))
     = [Finite 100, Finite (- 100), Finite 100, Finite (- 100)]"
proof -
  let ?m = "alpha_beta\<lparr>status := ''SETTLED'', winningTeam := Some ''A''\<rparr>"
  have reads: "overlap castObjectId js_ops tick tick [False, True]
          (Loading mid1 (Some ''A'')) (Loading mid1 (Some ''A'')) db0
      = (Saving mid1 ?m (Some ''A''), Saving mid1 ?m (Some ''A''), db0)"
    by (simp add: findById_def cast_mid1 db0_match alpha_beta_unsettled)
  have m0: "matches db0 mid1 = Some (alpha_beta\<lparr>status := ''UNDECIDED'', winningTeam := None\<rparr>)"
    by (simp add: db0_def alpha_beta_def)
  note a = six_steps [OF m0]
  have m1: "matches (snd (settle_steps castObjectId js_ops tick 6 (Saving mid1 ?m (Some ''A'')) db0)) mid1
      = Some (alpha_beta\<lparr>status := ''SETTLED'', winningTeam := Some ''A''\<rparr>)"
    unfolding a by simp
  note b = six_steps [OF m1]
  have all: "overlap castObjectId js_ops tick tick both_read_first
          (Loading mid1 (Some ''A'')) (Loading mid1 (Some ''A'')) db0
      = (Finished (Reply 200 (MatchDoc mid1 ?m)),
         settle_steps castObjectId js_ops tick 6 (Saving mid1 ?m (Some ''A''))
           (snd (settle_steps castObjectId js_ops tick 6 (Saving mid1 ?m (Some ''A'')) db0)))"
    unfolding both_read_first_def overlap_append reads prod.case overlap_first overlap_second
    by (simp add: a)
  show ?thesis
    unfolding all b
    unfolding a
    by (simp add: Let_def db0_def uid1_neq_uid2 inc_balance_def fresh_user_def js_ops_simps
        round53_small)
qed

section \<open>What settle pays\<close>

lemma moved_twice:
  "moved ops cast k False ls (moved ops cast k True ws b) =
     foldl (num_add ops) b
       (map betAmount (filter (\<lambda>p. cast (userId p) = Some k) ws)
        @ map (\<lambda>p. num_neg ops (betAmount p)) (filter (\<lambda>p. cast (userId p) = Some k) ls))"
  by (simp add: moved_def moves_def signed_def)

lemma show_name_case: "show_name nm = (case nm of None \<Rightarrow> ''undefined'' | Some n \<Rightarrow> n)"
  by (simp add: show_name_def)

lemma stored_castable:
  "\<forall>p\<in>set ps. \<exists>k. cast (userId p) = Some k \<and> us k \<noteq> None \<Longrightarrow> list_all (castable cast) ps"
  by (auto simp: list_all_iff castable_def)

text \<open>
  C4, as the code has it. Settling an UNDECIDED match with winningTeam "A" or "B",
  every roster entry naming its player by the ObjectId of a stored account: the reply
  is 200 with the match, now SETTLED with the given winningTeam; the balance of every
  account is what adding to it, one entry after the other, the stakes of its entries
  on the winning roster and then the negated stakes of its entries on the losing
  roster gives; and the ledger grows by one WIN entry per winning entry (its stake,
  "Victory: " and the match's name, "undefined" for a match without one) followed by
  one LOSS entry per losing entry (its negated stake, "Defeat: " and the match's
  name), in roster order.
\<close>

theorem settle_payout_correct:
  assumes "cast mid = Some mk" and "matches s mk = Some m0" and "status m0 = ''UNDECIDED''"
    and "w = ''A'' \<or> w = ''B''"
    and "\<forall>p\<in>set (teamA m0 @ teamB m0). \<exists>k. cast (userId p) = Some k \<and> users s k \<noteq> None"
  shows "settle cast ops now mid (Some w) s =
     (let ws = (if w = ''A'' then teamA m0 else teamB m0);
          ls = (if w = ''A'' then teamB m0 else teamA m0);
          m = m0\<lparr>status := ''SETTLED'', winningTeam := Some w\<rparr>
      in (Reply 200 (MatchDoc mk m),
          s\<lparr>users := (\<lambda>k. map_option
                 (\<lambda>u. u\<lparr>balance := foldl (num_add ops) (balance u)
                     (map betAmount (filter (\<lambda>p. cast (userId p) = Some k) ws)
                      @ map (\<lambda>p. num_neg ops (betAmount p))
                          (filter (\<lambda>p. cast (userId p) = Some k) ls))\<rparr>)
                 (users s k)),
            matches := (matches s)(mk \<mapsto> m),
            transactions := transactions s
              @ map (\<lambda>(j, p). \<lparr>t_userId = userId p, amount = betAmount p, t_type = ''WIN'',
                       description = ''Victory: ''
                         @ (case name m0 of None \<Rightarrow> ''undefined'' | Some n \<Rightarrow> n),
                       timestamp = now j\<rparr>)
                  (zip [0..<length ws] ws)
              @ map (\<lambda>(j, p). \<lparr>t_userId = userId p, amount = num_neg ops (betAmount p),
                       t_type = ''LOSS'',
                       description = ''Defeat: ''
                         @ (case name m0 of None \<Rightarrow> ''undefined'' | Some n \<Rightarrow> n),
                       timestamp = now j\<rparr>)
                  (zip [length ws..<length ws + length ls] ls)\<rparr>))"
proof -
  have ns: "status m0 \<noteq> ''SETTLED''"
    using assms(3) by simp
  have "list_all (castable cast) (teamA m0 @ teamB m0)"
    using assms(5) by (rule stored_castable)
  then have all: "list_all (castable cast) (teamA m0)" "list_all (castable cast) (teamB m0)"
    by simp_all
  show ?thesis
    unfolding settle_unsettled [where cast = cast and mid = mid, OF assms(1) assms(2) ns]
    using all
    by (simp add: Let_def applied_after_def applied_all payout_txs_def payout_tx_def
        moved_twice show_name_case)
qed

theorem settle_payout_correct_witness:
  "fst (settle castObjectId js_ops tick mid1 (Some ''A'') db0)
     = Reply 200 (MatchDoc mid1 (alpha_beta\<lparr>status := ''SETTLED'', winningTeam := Some ''A''\<rparr>))
   \<and> map_option balance (users (snd (settle castObjectId js_ops tick mid1 (Some ''A'') db0)) uid1)
       = Some (Finite 100)
   \<and> map_option balance (users (snd (settle castObjectId js_ops tick mid1 (Some ''A'') db0)) uid2)
       = Some (Finite (- 100))
   \<and> transactions (snd (settle castObjectId js_ops tick mid1 (Some ''A'') db0))
       = [\<lparr>t_userId = uid1, amount = Finite 100, t_type = ''WIN'',
            description = ''Victory: Alpha vs Beta'', timestamp = 1000\<rparr>,
          \<lparr>t_userId = uid2, amount = Finite (- 100), t_type = ''LOSS'',
            description = ''Defeat: Alpha vs Beta'', timestamp = 1001\<rparr>]"
proof -
  have w: "''A'' = ''A'' \<or> ''A'' = ''B''"
    by simp
  note eq = settle_payout_correct [where cast = castObjectId and mid = mid1 and now = tick
      and ops = js_ops, OF cast_mid1 db0_match alpha_beta_fields(1) w db0_accounts]
  show ?thesis
    unfolding eq
    by (simp add: Let_def alpha_beta_fields cast_uid1 cast_uid2 uid1_neq_uid2
        db0_def fresh_user_def tick_def js_ops_simps round53_small)
qed

text \<open>The claim as stated fails on an UNDECIDED match settled with "A" whose losing
  roster names first a player without an account, then one by "p2", which is no
  ObjectId: the winner is paid, the ledger gets a LOSS entry for the account that is
  not stored, and the handler throws at "p2", which gets neither a debit nor a LOSS
  entry. The match is SETTLED and no reply is sent.\<close>

theorem settle_payout_counterexample:
  "fst (settle castObjectId js_ops tick mid1 (Some ''A'') db_stray) = Unhandled
   \<and> map_option status (matches (snd (settle castObjectId js_ops tick mid1 (Some ''A'') db_stray)) mid1)
       = Some ''SETTLED''
   \<and> transactions (snd (settle castObjectId js_ops tick mid1 (Some ''A'') db_stray))
       = [\<lparr>t_userId = uid1, amount = Finite 100, t_type = ''WIN'',
            description = ''Victory: Alpha vs Beta'', timestamp = 1000\<rparr>,
          \<lparr>t_userId = uid3, amount = Finite (- 100), t_type = ''LOSS'',
            description = ''Defeat: Alpha vs Beta'', timestamp = 1001\<rparr>]
   \<and> users (snd (settle castObjectId js_ops tick mid1 (Some ''A'') db_stray)) uid3 = None
   \<and> map_option balance (users (snd (settle castObjectId js_ops tick mid1 (Some ''A'') db_stray)) uid1)
       = Some (Finite 100)
   \<and> map_option balance (users (snd (settle castObjectId js_ops tick mid1 (Some ''A'') db_stray)) uid2)
       = Some (Finite 0)"
proof -
  note st = settle_unsettled [where cast = castObjectId and mid = mid1 and now = tick
      and ops = js_ops and w = "Some ''A''", OF cast_mid1 db_stray_match stray_unsettled]
  have ws: "applied castObjectId (teamA stray) = teamA stray"
    by (simp add: applied_def castable_def stray_def cast_uid1)
  have ls: "applied_after castObjectId (teamA stray) (teamB stray)
      = [\<lparr>userId = uid3, username = ''p3'', betAmount = Finite 100, paid = False\<rparr>]"
    by (simp add: applied_after_def applied_def castable_def stray_def cast_uid1 cast_uid3 cast_p2)
  have nc: "\<not> list_all (castable castObjectId) (teamA stray @ teamB stray)"
    by (simp add: castable_def stray_def cast_p2)
  have r: "fst (settle castObjectId js_ops tick mid1 (Some ''A'') db_stray) = Unhandled"
    unfolding st using nc by (simp add: Let_def)
  have m: "map_option status (matches (snd (settle castObjectId js_ops tick mid1 (Some ''A'') db_stray)) mid1)
       = Some ''SETTLED''"
    unfolding st by (simp add: Let_def)
  have t: "transactions (snd (settle castObjectId js_ops tick mid1 (Some ''A'') db_stray))
       = [\<lparr>t_userId = uid1, amount = Finite 100, t_type = ''WIN'',
            description = ''Victory: Alpha vs Beta'', timestamp = 1000\<rparr>,
          \<lparr>t_userId = uid3, amount = Finite (- 100), t_type = ''LOSS'',
            description = ''Defeat: Alpha vs Beta'', timestamp = 1001\<rparr>]"
  proof -
    have "transactions (snd (settle castObjectId js_ops tick mid1 (Some ''A'') db_stray))
        = transactions db_stray @ payout_txs js_ops tick True (name stray) 0 (teamA stray)
          @ payout_txs js_ops tick False (name stray) (length (teamA stray))
              [\<lparr>userId = uid3, username = ''p3'', betAmount = Finite 100, paid = False\<rparr>]"
      unfolding st by (simp add: Let_def ws ls)
    then show ?thesis
      by (simp add: payout_txs_def payout_tx_def stray_def show_name_def tick_def
          db_stray_def db0_def js_ops_simps)
  qed
  have u: "users (snd (settle castObjectId js_ops tick mid1 (Some ''A'') db_stray)) k
        = map_option (\<lambda>u. u\<lparr>balance := moved js_ops castObjectId k False
              [\<lparr>userId = uid3, username = ''p3'', betAmount = Finite 100, paid = False\<rparr>]
              (moved js_ops castObjectId k True (teamA stray) (balance u))\<rparr>) (users db_stray k)" for k
    unfolding st by (simp add: Let_def ws ls)
  have u3: "users (snd (settle castObjectId js_ops tick mid1 (Some ''A'') db_stray)) uid3 = None"
    unfolding u by (simp add: db_stray_def db0_def uid3_neq)
  have u1: "map_option balance (users (snd (settle castObjectId js_ops tick mid1 (Some ''A'') db_stray)) uid1)
       = Some (Finite 100)"
    unfolding u
    by (simp add: db_stray_def db0_def uid1_neq_uid2 uid3_neq moved_def moves_def signed_def
        stray_def cast_uid1 cast_uid3 fresh_user_def js_ops_simps round53_small)
  have u2: "map_option balance (users (snd (settle castObjectId js_ops tick mid1 (Some ''A'') db_stray)) uid2)
       = Some (Finite 0)"
    unfolding u
    by (simp add: db_stray_def db0_def uid1_neq_uid2 uid3_neq moved_def moves_def signed_def
        stray_def cast_uid1 cast_uid3 fresh_user_def js_ops_simps round53_small)
  show ?thesis
    using r m t u3 u1 u2 by simp
qed

section \<open>Any designator but "A" makes team B the winner\<close>

text \<open>
  C10, as the code has it. Settling an UNDECIDED match with a winningTeam that is not
  the string "A" (the string "B", the empty string, any other string, or none at
  all), every roster entry naming its player by the ObjectId of a stored account:
  teamB is the winning roster and teamA the losing one. The balance of every account
  is what adding to it the stakes of its teamB entries and then the negated stakes of
  its teamA entries gives, the ledger grows by the WIN entries of teamB followed by
  the LOSS entries of teamA, the match is stored SETTLED with the winningTeam as
  given, and the reply is 200 with it.
\<close>

theorem settle_other_winner_is_B:
  assumes "cast mid = Some mk" and "matches s mk = Some m0" and "status m0 = ''UNDECIDED''"
    and "w \<noteq> Some ''A''"
    and "\<forall>p\<in>set (teamA m0 @ teamB m0). \<exists>k. cast (userId p) = Some k \<and> users s k \<noteq> None"
  shows "settle cast ops now mid w s =
      (Reply 200 (MatchDoc mk (m0\<lparr>status := ''SETTLED'', winningTeam := w\<rparr>)),
       s\<lparr>users := (\<lambda>k. map_option
              (\<lambda>u. u\<lparr>balance := foldl (num_add ops) (balance u)
                  (map betAmount (filter (\<lambda>p. cast (userId p) = Some k) (teamB m0))
                   @ map (\<lambda>p. num_neg ops (betAmount p))
                       (filter (\<lambda>p. cast (userId p) = Some k) (teamA m0)))\<rparr>)
              (users s k)),
         matches := (matches s)(mk \<mapsto> m0\<lparr>status := ''SETTLED'', winningTeam := w\<rparr>),
         transactions := transactions s
           @ map (\<lambda>(j, p). \<lparr>t_userId = userId p, amount = betAmount p, t_type = ''WIN'',
                    description = ''Victory: ''
                      @ (case name m0 of None \<Rightarrow> ''undefined'' | Some n \<Rightarrow> n),
                    timestamp = now j\<rparr>)
               (zip [0..<length (teamB m0)] (teamB m0))
           @ map (\<lambda>(j, p). \<lparr>t_userId = userId p, amount = num_neg ops (betAmount p),
                    t_type = ''LOSS'',
                    description = ''Defeat: ''
                      @ (case name m0 of None \<Rightarrow> ''undefined'' | Some n \<Rightarrow> n),
                    timestamp = now j\<rparr>)
               (zip [length (teamB m0)..<length (teamB m0) + length (teamA m0)] (teamA m0))\<rparr>)"
proof -
  have ns: "status m0 \<noteq> ''SETTLED''"
    using assms(3) by simp
  have "list_all (castable cast) (teamA m0 @ teamB m0)"
    using assms(5) by (rule stored_castable)
  then have all: "list_all (castable cast) (teamA m0)" "list_all (castable cast) (teamB m0)"
    by simp_all
  show ?thesis
    unfolding settle_unsettled [where cast = cast and mid = mid, OF assms(1) assms(2) ns]
    using all assms(4)
    by (simp add: Let_def applied_after_def applied_all payout_txs_def payout_tx_def
        moved_twice show_name_case)
qed

theorem settle_other_winner_is_B_witness:
  "map_option balance (users (snd (settle castObjectId js_ops tick mid1 (Some '''') db0)) uid2)
       = Some (Finite 100)
   \<and> map_option balance (users (snd (settle castObjectId js_ops tick mid1 (Some '''') db0)) uid1)
       = Some (Finite (- 100))
   \<and> transactions (snd (settle castObjectId js_ops tick mid1 (Some '''') db0))
       = [\<lparr>t_userId = uid2, amount = Finite 100, t_type = ''WIN'',
            description = ''Victory: Alpha vs Beta'', timestamp = 1000\<rparr>,
          \<lparr>t_userId = uid1, amount = Finite (- 100), t_type = ''LOSS'',
            description = ''Defeat: Alpha vs Beta'', timestamp = 1001\<rparr>]"
proof -
  have w: "Some '''' \<noteq> Some ''A''"
    by simp
  note eq = settle_other_winner_is_B [where cast = castObjectId and mid = mid1 and now = tick
      and ops = js_ops, OF cast_mid1 db0_match alpha_beta_fields(1) w db0_accounts]
  show ?thesis
    unfolding eq
    by (simp add: alpha_beta_fields cast_uid1 cast_uid2 uid1_neq_uid2
        db0_def fresh_user_def tick_def js_ops_simps round53_small)
qed

text \<open>The claim as stated fails on an UNDECIDED match settled with "B" whose teamB
  names first a player without an account, then one by "p2", which is no ObjectId:
  the ledger gets a WIN entry for the account that is not stored, the handler throws
  at "p2", and nobody is credited or charged. The match is SETTLED and no reply is
  sent.\<close>

theorem settle_other_winner_counterexample:
  "fst (settle castObjectId js_ops tick mid1 (Some ''B'') db_stray) = Unhandled
   \<and> map_option status (matches (snd (settle castObjectId js_ops tick mid1 (Some ''B'') db_stray)) mid1)
       = Some ''SETTLED''
   \<and> transactions (snd (settle castObjectId js_ops tick mid1 (Some ''B'') db_stray))
       = [\<lparr>t_userId = uid3, amount = Finite 100, t_type = ''WIN'',
            description = ''Victory: Alpha vs Beta'', timestamp = 1000\<rparr>]
   \<and> users (snd (settle castObjectId js_ops tick mid1 (Some ''B'') db_stray)) = users db_stray"
proof -
  note st = settle_unsettled [where cast = castObjectId and mid = mid1 and now = tick
      and ops = js_ops and w = "Some ''B''", OF cast_mid1 db_stray_match stray_unsettled]
  have ws: "applied castObjectId (teamB stray)
      = [\<lparr>userId = uid3, username = ''p3'', betAmount = Finite 100, paid = False\<rparr>]"
    by (simp add: applied_def castable_def stray_def cast_uid3 cast_p2)
  have ls: "applied_after castObjectId (teamB stray) (teamA stray) = []"
    by (simp add: applied_after_def castable_def stray_def cast_p2)
  have nc: "\<not> list_all (castable castObjectId) (teamB stray @ teamA stray)"
    by (simp add: castable_def stray_def cast_p2)
  have r: "fst (settle castObjectId js_ops tick mid1 (Some ''B'') db_stray) = Unhandled"
    unfolding st using nc by (simp add: Let_def)
  have m: "map_option status (matches (snd (settle castObjectId js_ops tick mid1 (Some ''B'') db_stray)) mid1)
       = Some ''SETTLED''"
    unfolding st by (simp add: Let_def)
  have t: "transactions (snd (settle castObjectId js_ops tick mid1 (Some ''B'') db_stray))
       = [\<lparr>t_userId = uid3, amount = Finite 100, t_type = ''WIN'',
            description = ''Victory: Alpha vs Beta'', timestamp = 1000\<rparr>]"
  proof -
    have "transactions (snd (settle castObjectId js_ops tick mid1 (Some ''B'') db_stray))
        = transactions db_stray @ payout_txs js_ops tick True (name stray) 0
              [\<lparr>userId = uid3, username = ''p3'', betAmount = Finite 100, paid = False\<rparr>]"
      unfolding st by (simp add: Let_def ws ls payout_txs_Nil)
    then show ?thesis
      by (simp add: payout_txs_def payout_tx_def stray_def show_name_def tick_def
          db_stray_def db0_def)
  qed
  have u: "users (snd (settle castObjectId js_ops tick mid1 (Some ''B'') db_stray)) k
        = users db_stray k" for k
  proof -
    have "users (snd (settle castObjectId js_ops tick mid1 (Some ''B'') db_stray)) k
        = map_option (\<lambda>u. u\<lparr>balance := moved js_ops castObjectId k True
              [\<lparr>userId = uid3, username = ''p3'', betAmount = Finite 100, paid = False\<rparr>]
              (balance u)\<rparr>) (users db_stray k)"
      unfolding st by (simp add: Let_def ws ls moved_Nil)
    then show ?thesis
      by (cases "k = uid3")
        (simp_all add: db_stray_def db0_def uid3_neq moved_def moves_def cast_uid3
          option.map_ident cong: option.map_cong)
  qed
  then have "users (snd (settle castObjectId js_ops tick mid1 (Some ''B'') db_stray)) = users db_stray"
    by (rule ext)
  then show ?thesis
    using r m t by simp
qed

lemma settle_db0:
  "w \<noteq> Some ''A'' \<Longrightarrow>
   fst (settle castObjectId js_ops tick mid1 w db0)
     = Reply 200 (MatchDoc mid1 (alpha_beta\<lparr>status := ''SETTLED'', winningTeam := w\<rparr>))
   \<and> map_option balance (users (snd (settle castObjectId js_ops tick mid1 w db0)) uid1)
       = Some (Finite (- 100))
   \<and> map_option balance (users (snd (settle castObjectId js_ops tick mid1 w db0)) uid2)
       = Some (Finite 100)
   \<and> transactions (snd (settle castObjectId js_ops tick mid1 w db0))
       = [\<lparr>t_userId = uid2, amount = Finite 100, t_type = ''WIN'',
            description = ''Victory: Alpha vs Beta'', timestamp = 1000\<rparr>,
          \<lparr>t_userId = uid1, amount = Finite (- 100), t_type = ''LOSS'',
            description = ''Defeat: Alpha vs Beta'', timestamp = 1001\<rparr>]"
  unfolding settle_unsettled [where cast = castObjectId and mid = mid1,
      OF cast_mid1 db0_match alpha_beta_unsettled]
  by (simp add: Let_def alpha_beta_fields castable_def applied_def applied_after_def
      cast_uid1 cast_uid2 moved_def moves_def signed_def uid1_neq_uid2 db0_def fresh_user_def
      payout_txs_def payout_tx_def show_name_def tick_def js_ops_simps round53_small)

section \<open>No check of the winner designator\<close>

text \<open>
  C6, as the code has it. settle does not look at the winningTeam before it writes:
  for a stored match that is not SETTLED and a winningTeam that is neither "A" nor
  "B", the match is stored SETTLED with that winningTeam, and the reply is 200 with
  the match when every roster entry names its player by an ObjectId (no reply is
  sent otherwise). No reply rejects the designator.
\<close>

theorem settle_accepts_any_designator:
  assumes "cast mid = Some mk" and "matches s mk = Some m0" and "status m0 \<noteq> ''SETTLED''"
    and "w \<noteq> ''A''" and "w \<noteq> ''B''"
  shows "fst (settle cast ops now mid (Some w) s) =
           (if list_all (castable cast) (teamB m0 @ teamA m0)
            then Reply 200 (MatchDoc mk (m0\<lparr>status := ''SETTLED'', winningTeam := Some w\<rparr>))
            else Unhandled)
       \<and> matches (snd (settle cast ops now mid (Some w) s)) mk =
           Some (m0\<lparr>status := ''SETTLED'', winningTeam := Some w\<rparr>)"
  unfolding settle_unsettled [where cast = cast and mid = mid, OF assms(1) assms(2) assms(3)]
  using assms(4) by (simp add: Let_def)

theorem settle_accepts_any_designator_witness:
  "fst (settle castObjectId js_ops tick mid1 (Some ''draw'') db0)
     = Reply 200 (MatchDoc mid1 (alpha_beta\<lparr>status := ''SETTLED'', winningTeam := Some ''draw''\<rparr>))
   \<and> matches (snd (settle castObjectId js_ops tick mid1 (Some ''draw'') db0)) mid1
     = Some (alpha_beta\<lparr>status := ''SETTLED'', winningTeam := Some ''draw''\<rparr>)"
proof -
  have w: "''draw'' \<noteq> ''A''" "''draw'' \<noteq> ''B''"
    by simp_all
  have c: "list_all (castable castObjectId) (teamB alpha_beta @ teamA alpha_beta)"
    by (simp add: alpha_beta_fields castable_def cast_uid1 cast_uid2)
  show ?thesis
    using settle_accepts_any_designator [where cast = castObjectId and mid = mid1
        and now = tick and ops = js_ops, OF cast_mid1 db0_match alpha_beta_unsettled w] c
    by simp
qed

text \<open>The claim as stated fails: "C" is neither "A" nor "B", and the match of the
  scenario is settled with it, team B paid and team A charged.\<close>

theorem settle_invalid_designator_counterexample:
  "fst (settle castObjectId js_ops tick mid1 (Some ''C'') db0)
     = Reply 200 (MatchDoc mid1 (alpha_beta\<lparr>status := ''SETTLED'', winningTeam := Some ''C''\<rparr>))
   \<and> map_option balance (users (snd (settle castObjectId js_ops tick mid1 (Some ''C'') db0)) uid1)
       = Some (Finite (- 100))
   \<and> map_option balance (users (snd (settle castObjectId js_ops tick mid1 (Some ''C'') db0)) uid2)
       = Some (Finite 100)
   \<and> transactions (snd (settle castObjectId js_ops tick mid1 (Some ''C'') db0))
       = [\<lparr>t_userId = uid2, amount = Finite 100, t_type = ''WIN'',
            description = ''Victory: Alpha vs Beta'', timestamp = 1000\<rparr>,
          \<lparr>t_userId = uid1, amount = Finite (- 100), t_type = ''LOSS'',
            description = ''Defeat: Alpha vs Beta'', timestamp = 1001\<rparr>]"
  by (rule settle_db0) simp

section \<open>settle writes step by step\<close>

text \<open>
  C5, as the code has it. settle is no single unit: for a stored match that is not
  SETTLED it first stores the match as SETTLED and then moves the stakes entry by
  entry, winners first. A movement adds the signed stake to the balance of the
  account the entry names, when that account is stored, and writes its ledger entry
  either way. The movements made are those of the entries before the first
  one whose userId is no ObjectId; when there is none, all movements are made and
  the reply is 200 with the match, otherwise the handler throws there and sends no
  reply. In both cases the match stays SETTLED, so a later settle is answered 400
  and changes nothing.
\<close>

theorem settle_stepwise:
  assumes "cast mid = Some mk" and "matches s mk = Some m0" and "status m0 \<noteq> ''SETTLED''"
  shows "(let ws = (if w = Some ''A'' then teamA m0 else teamB m0);
              ls = (if w = Some ''A'' then teamB m0 else teamA m0);
              m = m0\<lparr>status := ''SETTLED'', winningTeam := w\<rparr>;
              r = settle cast ops now mid w s
          in matches (snd r) mk = Some m
           \<and> transactions (snd r) = transactions s
                 @ payout_txs ops now True (name m0) 0 (applied cast ws)
                 @ payout_txs ops now False (name m0) (length ws) (applied_after cast ws ls)
           \<and> users (snd r) = (\<lambda>k. map_option
                 (\<lambda>u. u\<lparr>balance := moved ops cast k False (applied_after cast ws ls)
                                       (moved ops cast k True (applied cast ws) (balance u))\<rparr>)
                 (users s k))
           \<and> fst r = (if applied cast ws = ws \<and> applied_after cast ws ls = ls
                      then Reply 200 (MatchDoc mk m) else Unhandled)
           \<and> settle cast ops now' mid w' (snd r) = (Reply 400 Empty, snd r))"
proof -
  let ?m = "m0\<lparr>status := ''SETTLED'', winningTeam := w\<rparr>"
  have m: "matches (snd (settle cast ops now mid w s)) mk = Some ?m"
    by (rule settle_stores_settled [where cast = cast and mid = mid, OF assms])
  have again: "settle cast ops now' mid w' (snd (settle cast ops now mid w s))
      = (Reply 400 Empty, snd (settle cast ops now mid w s))"
    by (rule settle_settled [where cast = cast and mid = mid, OF assms(1) m]) simp
  show ?thesis
    using again m
    unfolding settle_unsettled [where cast = cast and mid = mid, OF assms]
    by (simp add: Let_def list_all_castable_append [symmetric])
qed

theorem settle_stepwise_witness:
  "matches (snd (settle castObjectId js_ops tick mid1 (Some ''B'') db_bad)) mid1
     = Some (lopsided\<lparr>status := ''SETTLED'', winningTeam := Some ''B''\<rparr>)
   \<and> transactions (snd (settle castObjectId js_ops tick mid1 (Some ''B'') db_bad)) = []
   \<and> fst (settle castObjectId js_ops tick mid1 (Some ''B'') db_bad) = Unhandled
   \<and> settle castObjectId js_ops tick mid1 (Some ''B'')
        (snd (settle castObjectId js_ops tick mid1 (Some ''B'') db_bad))
     = (Reply 400 Empty, snd (settle castObjectId js_ops tick mid1 (Some ''B'') db_bad))"
proof -
  have ws: "applied castObjectId (teamB lopsided) = []"
    by (simp add: applied_def castable_def lopsided_def cast_p2)
  have ls: "applied_after castObjectId (teamB lopsided) (teamA lopsided) = []"
    by (simp add: applied_after_def castable_def lopsided_def cast_p2)
  have ne: "teamB lopsided \<noteq> []"
    by (simp add: lopsided_def)
  have t: "transactions db_bad = []"
    by (simp add: db_bad_def db0_def)
  show ?thesis
    using settle_stepwise [where cast = castObjectId and mid = mid1 and now = tick
        and now' = tick and w = "Some ''B''" and w' = "Some ''B''" and ops = js_ops,
        OF cast_mid1 db_bad_match lopsided_unsettled] ne
    by (simp add: Let_def ws ls t payout_txs_Nil)
qed

text \<open>The claim as stated fails: with team A the winner, the winner of the match
  is paid, the loser's userId "p2" is no ObjectId and the handler throws there. The
  match is SETTLED with the WIN entry alone in the ledger, and settling again is
  answered 400.\<close>

theorem settle_partial_counterexample:
  "fst (settle castObjectId js_ops tick mid1 (Some ''A'') db_bad) = Unhandled
   \<and> map_option status (matches (snd (settle castObjectId js_ops tick mid1 (Some ''A'') db_bad)) mid1)
       = Some ''SETTLED''
   \<and> transactions (snd (settle castObjectId js_ops tick mid1 (Some ''A'') db_bad))
       = [\<lparr>t_userId = uid1, amount = Finite 100, t_type = ''WIN'',
            description = ''Victory: Alpha vs Beta'', timestamp = 1000\<rparr>]
   \<and> map_option balance (users (snd (settle castObjectId js_ops tick mid1 (Some ''A'') db_bad)) uid1)
       = Some (Finite 100)
   \<and> fst (settle castObjectId js_ops tick mid1 (Some ''A'')
            (snd (settle castObjectId js_ops tick mid1 (Some ''A'') db_bad))) = Reply 400 Empty"
proof -
  note st = settle_unsettled [where cast = castObjectId and mid = mid1 and now = tick
      and ops = js_ops and w = "Some ''A''", OF cast_mid1 db_bad_match lopsided_unsettled]
  have ws: "applied castObjectId (teamA lopsided) = teamA lopsided"
    by (simp add: applied_def castable_def lopsided_def cast_uid1)
  have ls: "applied_after castObjectId (teamA lopsided) (teamB lopsided) = []"
    by (simp add: applied_after_def applied_def castable_def lopsided_def cast_uid1 cast_p2)
  have m: "matches (snd (settle castObjectId js_ops tick mid1 (Some ''A'') db_bad)) mid1
      = Some (lopsided\<lparr>status := ''SETTLED'', winningTeam := Some ''A''\<rparr>)"
    by (rule settle_stores_settled [where cast = castObjectId and mid = mid1,
          OF cast_mid1 db_bad_match lopsided_unsettled])
  have again: "settle castObjectId js_ops tick mid1 (Some ''A'')
            (snd (settle castObjectId js_ops tick mid1 (Some ''A'') db_bad))
      = (Reply 400 Empty, snd (settle castObjectId js_ops tick mid1 (Some ''A'') db_bad))"
    by (rule settle_settled [where cast = castObjectId and mid = mid1, OF cast_mid1 m]) simp
  have r: "fst (settle castObjectId js_ops tick mid1 (Some ''A'') db_bad) = Unhandled"
    unfolding st by (simp add: Let_def castable_def lopsided_def cast_uid1 cast_p2)
  have t: "transactions (snd (settle castObjectId js_ops tick mid1 (Some ''A'') db_bad))
       = [\<lparr>t_userId = uid1, amount = Finite 100, t_type = ''WIN'',
            description = ''Victory: Alpha vs Beta'', timestamp = 1000\<rparr>]"
  proof -
    have "transactions (snd (settle castObjectId js_ops tick mid1 (Some ''A'') db_bad))
        = transactions db_bad @ payout_txs js_ops tick True (name lopsided) 0 (teamA lopsided)"
      unfolding st by (simp add: Let_def ws ls payout_txs_Nil)
    then show ?thesis
      by (simp add: payout_txs_def payout_tx_def lopsided_def show_name_def tick_def
          db_bad_def db0_def)
  qed
  have b: "map_option balance (users (snd (settle castObjectId js_ops tick mid1 (Some ''A'') db_bad)) uid1)
       = Some (Finite 100)"
  proof -
    have "users (snd (settle castObjectId js_ops tick mid1 (Some ''A'') db_bad)) uid1
        = map_option (\<lambda>u. u\<lparr>balance := moved js_ops castObjectId uid1 True (teamA lopsided) (balance u)\<rparr>)
            (users db_bad uid1)"
      unfolding st by (simp add: Let_def ws ls moved_Nil)
    then show ?thesis
      by (simp add: moved_def moves_def signed_def lopsided_def cast_uid1 db_bad_def db0_def
          fresh_user_def uid1_neq_uid2 js_ops_simps round53_small)
  qed
  show ?thesis
    using r m t b again by simp
qed

lemma sort_desc_sorted: "sorted_wrt (\<lambda>a b. timestamp a \<ge> timestamp b) (sort_desc txs)"
proof -
  have "sorted (map (\<lambda>t. - timestamp t) (sort_desc txs))"
    unfolding sort_desc_def by (rule sorted_sort_key)
  then show ?thesis
    by (simp add: sorted_map)
qed

lemma sort_desc_mset: "mset (sort_desc txs) = mset txs"
  by (simp add: sort_desc_def)

section \<open>The ledger queries\<close>

text \<open>
  C9. GET /api/transactions answers 200 with the entries of the ledger, each as often
  as the ledger holds it, ordered by timestamp descending. GET
  /api/transactions/:userId answers 200 with the entries whose userId is the given
  string, and only those, ordered by timestamp descending.
\<close>

theorem ledger_queries_ordered:
  "(\<exists>r. listAll s = Reply 200 (TxDocs r)
        \<and> mset r = mset (transactions s)
        \<and> sorted_wrt (\<lambda>a b. timestamp a \<ge> timestamp b) r)
   \<and> (\<exists>r. listByAccount uid s = Reply 200 (TxDocs r)
        \<and> mset r = mset (filter (\<lambda>t. t_userId t = uid) (transactions s))
        \<and> sorted_wrt (\<lambda>a b. timestamp a \<ge> timestamp b) r
        \<and> (\<forall>t\<in>set r. t_userId t = uid))"
proof (rule conjI)
  show "\<exists>r. listAll s = Reply 200 (TxDocs r)
        \<and> mset r = mset (transactions s)
        \<and> sorted_wrt (\<lambda>a b. timestamp a \<ge> timestamp b) r"
    unfolding listAll_def
    using sort_desc_mset [of "transactions s"] sort_desc_sorted [of "transactions s"]
    by blast
next
  let ?r = "sort_desc (filter (\<lambda>t. t_userId t = uid) (transactions s))"
  have "set ?r = set (filter (\<lambda>t. t_userId t = uid) (transactions s))"
    by (simp add: sort_desc_def)
  then have own: "\<forall>t\<in>set ?r. t_userId t = uid"
    by simp
  show "\<exists>r. listByAccount uid s = Reply 200 (TxDocs r)
        \<and> mset r = mset (filter (\<lambda>t. t_userId t = uid) (transactions s))
        \<and> sorted_wrt (\<lambda>a b. timestamp a \<ge> timestamp b) r
        \<and> (\<forall>t\<in>set r. t_userId t = uid)"
    unfolding listByAccount_def
    using sort_desc_mset [of "filter (\<lambda>t. t_userId t = uid) (transactions s)"]
      sort_desc_sorted [of "filter (\<lambda>t. t_userId t = uid) (transactions s)"] own
    by blast
qed

theorem ledger_queries_ordered_witness:
  "listAll db_ledger = Reply 200 (TxDocs
     [\<lparr>t_userId = uid2, amount = Finite (- 100), t_type = ''LOSS'', description = ''Defeat: x'', timestamp = 1002\<rparr>,
      \<lparr>t_userId = uid1, amount = Finite (- 30), t_type = ''ADMIN_ADJUST'', description = ''penalty'', timestamp = 1001\<rparr>,
      \<lparr>t_userId = uid1, amount = Finite 100, t_type = ''WIN'', description = ''Victory: x'', timestamp = 1000\<rparr>])
   \<and> listByAccount uid1 db_ledger = Reply 200 (TxDocs
     [\<lparr>t_userId = uid1, amount = Finite (- 30), t_type = ''ADMIN_ADJUST'', description = ''penalty'', timestamp = 1001\<rparr>,
      \<lparr>t_userId = uid1, amount = Finite 100, t_type = ''WIN'', description = ''Victory: x'', timestamp = 1000\<rparr>])
   \<and> (\<exists>r. listByAccount uid1 db_ledger = Reply 200 (TxDocs r)
        \<and> sorted_wrt (\<lambda>a b. timestamp a \<ge> timestamp b) r)"
proof -
  have a: "listAll db_ledger = Reply 200 (TxDocs
     [\<lparr>t_userId = uid2, amount = Finite (- 100), t_type = ''LOSS'', description = ''Defeat: x'', timestamp = 1002\<rparr>,
      \<lparr>t_userId = uid1, amount = Finite (- 30), t_type = ''ADMIN_ADJUST'', description = ''penalty'', timestamp = 1001\<rparr>,
      \<lparr>t_userId = uid1, amount = Finite 100, t_type = ''WIN'', description = ''Victory: x'', timestamp = 1000\<rparr>])"
    by (simp add: listAll_def sort_desc_def db_ledger_def)
  have b: "listByAccount uid1 db_ledger = Reply 200 (TxDocs
     [\<lparr>t_userId = uid1, amount = Finite (- 30), t_type = ''ADMIN_ADJUST'', description = ''penalty'', timestamp = 1001\<rparr>,
      \<lparr>t_userId = uid1, amount = Finite 100, t_type = ''WIN'', description = ''Victory: x'', timestamp = 1000\<rparr>])"
    by (simp add: listByAccount_def sort_desc_def db_ledger_def uid1_neq_uid2)
  from ledger_queries_ordered [of db_ledger uid1]
  have c: "\<exists>r. listByAccount uid1 db_ledger = Reply 200 (TxDocs r)
        \<and> sorted_wrt (\<lambda>a b. timestamp a \<ge> timestamp b) r"
    by blast
  show ?thesis
    using a b c by blast
qed

section \<open>Adjusting a balance\<close>

text \<open>
  C7, as the code has it, for a request whose body holds a Number as amount and a
  string as description. For a userId that is the ObjectId of a stored account,
  adjust adds the amount to the balance of the account, answers 200 with the updated
  account, appends one ADMIN_ADJUST ledger entry with the amount and the
  description, and appends one unread notification with the message "System
  Adjustment: ", a "+" when the amount passes \<^verbatim>\<open>>= 0\<close>, the amount as the template
  literal prints it, " credits (", the description and ")". For an ObjectId under
  which no account is stored it answers 404 "User not found" and changes nothing.
  For a userId that is no ObjectId, under which no account can be stored, it answers
  400 "Adjustment failed" and changes nothing.
\<close>

theorem adjust_behaviour:
  "(cast uid = Some k \<and> users s k = Some u \<longrightarrow>
      adjust cast ops now uid amt descr s =
        (Reply 200 (UserDoc k (u\<lparr>balance := num_add ops (balance u) amt\<rparr>)),
         s\<lparr>users := (users s)(k \<mapsto> u\<lparr>balance := num_add ops (balance u) amt\<rparr>),
           transactions := transactions s @
             [\<lparr>t_userId = uid, amount = amt, t_type = ''ADMIN_ADJUST'',
               description = descr, timestamp = now 0\<rparr>],
           notifications := notifications s @
             [\<lparr>n_userId = uid,
               message = ''System Adjustment: '' @ (if num_ge0 ops amt then ''+'' else '''') @
                 num_show ops amt @ '' credits ('' @ descr @ '')'',
               n_timestamp = now 1, isRead = False\<rparr>]\<rparr>))
   \<and> (cast uid = Some k \<and> users s k = None \<longrightarrow>
      adjust cast ops now uid amt descr s = (Reply 404 (Message ''User not found''), s))
   \<and> (cast uid = None \<longrightarrow>
      adjust cast ops now uid amt descr s = (Reply 400 (Message ''Adjustment failed''), s))"
  by (simp add: adjust_def findByIdAndUpdate_def inc_balance_def)

theorem adjust_behaviour_witness:
  "adjust castObjectId js_ops tick uid1 (Finite (- 30)) ''penalty'' db0
      = (Reply 200 (UserDoc uid1 ((fresh_user ''p1'')\<lparr>balance := Finite (- 30)\<rparr>)),
         db0\<lparr>users := (users db0)(uid1 \<mapsto> (fresh_user ''p1'')\<lparr>balance := Finite (- 30)\<rparr>),
             transactions :=
               [\<lparr>t_userId = uid1, amount = Finite (- 30), t_type = ''ADMIN_ADJUST'',
                  description = ''penalty'', timestamp = 1000\<rparr>],
             notifications :=
               [\<lparr>n_userId = uid1, message = ''System Adjustment: -30 credits (penalty)'',
                  n_timestamp = 1001, isRead = False\<rparr>]\<rparr>)
   \<and> notifications (snd (adjust castObjectId js_ops tick uid2 (Finite 100) ''bonus'' db0))
      = [\<lparr>n_userId = uid2, message = ''System Adjustment: +100 credits (bonus)'',
           n_timestamp = 1001, isRead = False\<rparr>]
   \<and> adjust castObjectId js_ops tick mid1 (Finite (- 30)) ''penalty'' db0
      = (Reply 404 (Message ''User not found''), db0)
   \<and> adjust castObjectId js_ops tick ''nobody'' (Finite (- 30)) ''penalty'' db0
      = (Reply 400 (Message ''Adjustment failed''), db0)"
proof -
  have u: "castObjectId uid1 = Some uid1 \<and> users db0 uid1 = Some (fresh_user ''p1'')"
    by (simp add: cast_uid1 db0_users)
  have v: "castObjectId uid2 = Some uid2 \<and> users db0 uid2 = Some (fresh_user ''p2'')"
    by (simp add: cast_uid2 db0_users)
  have n: "castObjectId mid1 = Some mid1 \<and> users db0 mid1 = None"
    using mid1_neq by (simp add: cast_mid1 db0_def)
  have x: "castObjectId ''nobody'' = None"
    by (simp add: castObjectId_def)
  from adjust_behaviour [of castObjectId uid1 uid1 db0 "fresh_user ''p1''" js_ops tick
      "Finite (- 30)" "''penalty''"] u
  have a: "adjust castObjectId js_ops tick uid1 (Finite (- 30)) ''penalty'' db0 =
        (Reply 200 (UserDoc uid1 ((fresh_user ''p1'')\<lparr>balance :=
            num_add js_ops (balance (fresh_user ''p1'')) (Finite (- 30))\<rparr>)),
         db0\<lparr>users := (users db0)(uid1 \<mapsto> (fresh_user ''p1'')\<lparr>balance :=
               num_add js_ops (balance (fresh_user ''p1'')) (Finite (- 30))\<rparr>),
           transactions := transactions db0 @
             [\<lparr>t_userId = uid1, amount = Finite (- 30), t_type = ''ADMIN_ADJUST'',
               description = ''penalty'', timestamp = tick 0\<rparr>],
           notifications := notifications db0 @
             [\<lparr>n_userId = uid1,
               message = ''System Adjustment: '' @
                 (if num_ge0 js_ops (Finite (- 30)) then ''+'' else '''') @
                 num_show js_ops (Finite (- 30)) @ '' credits ('' @ ''penalty'' @ '')'',
               n_timestamp = tick 1, isRead = False\<rparr>]\<rparr>)"
    by blast
  from adjust_behaviour [of castObjectId uid2 uid2 db0 "fresh_user ''p2''" js_ops tick
      "Finite 100" "''bonus''"] v
  have p: "adjust castObjectId js_ops tick uid2 (Finite 100) ''bonus'' db0 =
        (Reply 200 (UserDoc uid2 ((fresh_user ''p2'')\<lparr>balance :=
            num_add js_ops (balance (fresh_user ''p2'')) (Finite 100)\<rparr>)),
         db0\<lparr>users := (users db0)(uid2 \<mapsto> (fresh_user ''p2'')\<lparr>balance :=
               num_add js_ops (balance (fresh_user ''p2'')) (Finite 100)\<rparr>),
           transactions := transactions db0 @
             [\<lparr>t_userId = uid2, amount = Finite 100, t_type = ''ADMIN_ADJUST'',
               description = ''bonus'', timestamp = tick 0\<rparr>],
           notifications := notifications db0 @
             [\<lparr>n_userId = uid2,
               message = ''System Adjustment: '' @
                 (if num_ge0 js_ops (Finite 100) then ''+'' else '''') @
                 num_show js_ops (Finite 100) @ '' credits ('' @ ''bonus'' @ '')'',
               n_timestamp = tick 1, isRead = False\<rparr>]\<rparr>)"
    by blast
  from adjust_behaviour [of castObjectId mid1 mid1 db0 undefined js_ops tick
      "Finite (- 30)" "''penalty''"] n
  have b: "adjust castObjectId js_ops tick mid1 (Finite (- 30)) ''penalty'' db0
      = (Reply 404 (Message ''User not found''), db0)"
    by blast
  from adjust_behaviour [of castObjectId "''nobody''" undefined db0 undefined js_ops tick
      "Finite (- 30)" "''penalty''"] x
  have c: "adjust castObjectId js_ops tick ''nobody'' (Finite (- 30)) ''penalty'' db0
      = (Reply 400 (Message ''Adjustment failed''), db0)"
    by blast
  show ?thesis
    unfolding a b c p
    by (simp add: show_nat_def digits.simps tick_def db0_def fresh_user_def js_ops_simps
        round53_small)
qed

text \<open>The claim as stated fails: no account is stored under "p1", which is no
  ObjectId, and adjust answers 400 "Adjustment failed", not 404.\<close>

theorem adjust_absent_counterexample:
  "castObjectId ''p1'' = None
   \<and> adjust castObjectId js_ops tick ''p1'' (Finite (- 30)) ''penalty'' db0
       = (Reply 400 (Message ''Adjustment failed''), db0)"
  by (simp add: adjust_def findByIdAndUpdate_def cast_p1)

section \<open>Marking a payment\<close>

lemma mark_paid_idem: "mark_paid uid (mark_paid uid ps) = mark_paid uid ps"
  by (induction ps) simp_all

lemma find_mark_paid:
  "find (\<lambda>player. userId player = uid) (mark_paid uid ps)
     = map_option (\<lambda>p. p\<lparr>paid := True\<rparr>) (find (\<lambda>player. userId player = uid) ps)"
  by (induction ps) simp_all

lemma find_userId_iff:
  "(find (\<lambda>player. userId player = uid) ps \<noteq> None) = (uid \<in> userId ` set ps)"
  by (induction ps) auto

lemma userId_mark_paid: "userId ` set (mark_paid uid ps) = userId ` set ps"
  by (induction ps) auto

text \<open>pay on a stored match that lists the player, the player's userId an ObjectId\<close>

lemma pay_found:
  assumes "cast mid = Some mk" and "matches s mk = Some m"
    and "uid \<in> userId ` set (teamA m @ teamB m)" and "cast uid = Some k"
  shows "pay cast ops mid uid s =
     (Reply 200 (MatchDoc mk (m\<lparr>teamA := mark_paid uid (teamA m), teamB := mark_paid uid (teamB m)\<rparr>)),
      s\<lparr>users := (case users s k of None \<Rightarrow> users s
                   | Some u \<Rightarrow> (users s)(k \<mapsto> inc_totalMatchesPaid ops (num_one ops) u)),
        matches := (matches s)(mk \<mapsto> m\<lparr>teamA := mark_paid uid (teamA m),
                                         teamB := mark_paid uid (teamB m)\<rparr>)\<rparr>)"
proof -
  have found: "find (\<lambda>player. userId player = uid) (teamA m) \<noteq> None
      \<or> find (\<lambda>player. userId player = uid) (teamB m) \<noteq> None"
    unfolding find_userId_iff using assms(3) by (simp add: image_Un)
  show ?thesis
    using found assms(1,2,4)
    by (auto simp add: pay_def findById_def findByIdAndUpdate_def Let_def split: option.splits)
qed

text \<open>
  C3, as the code has it. For a stored match, a player listed on one of its rosters
  and that player's account: each of two calls of pay for the pair answers 200 with
  the match, the entry the handler finds for the player on each roster has its paid
  flag true after the first call and after the second, and every call adds 1 to the
  account's totalMatchesPaid: it is the old count plus 1 after the first call, and
  that plus 1 after the second (1 and then 2, from 0).
\<close>

theorem pay_twice_counts_twice:
  assumes "cast mid = Some mk" and "matches s mk = Some m"
    and "uid \<in> userId ` set (teamA m @ teamB m)"
    and "cast uid = Some k" and "users s k = Some u"
  shows "(let m' = m\<lparr>teamA := mark_paid uid (teamA m), teamB := mark_paid uid (teamB m)\<rparr>;
              r1 = pay cast ops mid uid s;
              r2 = pay cast ops mid uid (snd r1)
          in fst r1 = Reply 200 (MatchDoc mk m')
           \<and> fst r2 = Reply 200 (MatchDoc mk m')
           \<and> matches (snd r1) mk = Some m'
           \<and> matches (snd r2) mk = Some m'
           \<and> find (\<lambda>player. userId player = uid) (teamA m')
               = map_option (\<lambda>p. p\<lparr>paid := True\<rparr>) (find (\<lambda>player. userId player = uid) (teamA m))
           \<and> find (\<lambda>player. userId player = uid) (teamB m')
               = map_option (\<lambda>p. p\<lparr>paid := True\<rparr>) (find (\<lambda>player. userId player = uid) (teamB m))
           \<and> users (snd r1) k = Some (u\<lparr>totalMatchesPaid :=
                 num_add ops (totalMatchesPaid u) (num_one ops)\<rparr>)
           \<and> users (snd r2) k = Some (u\<lparr>totalMatchesPaid :=
                 num_add ops (num_add ops (totalMatchesPaid u) (num_one ops)) (num_one ops)\<rparr>))"
proof -
  let ?m = "m\<lparr>teamA := mark_paid uid (teamA m), teamB := mark_paid uid (teamB m)\<rparr>"
  let ?s1 = "snd (pay cast ops mid uid s)"
  note first = pay_found [where cast = cast and mid = mid and ops = ops, OF assms(1-4)]
  have m1: "matches ?s1 mk = Some ?m"
    unfolding first by simp
  have u1: "users ?s1 k = Some (u\<lparr>totalMatchesPaid :=
      num_add ops (totalMatchesPaid u) (num_one ops)\<rparr>)"
    unfolding first by (simp add: assms(5) inc_totalMatchesPaid_def)
  have in1: "uid \<in> userId ` set (teamA ?m @ teamB ?m)"
    using assms(3) by (simp add: image_Un userId_mark_paid)
  note second = pay_found [where cast = cast and mid = mid and ops = ops,
      OF assms(1) m1 in1 assms(4)]
  have r1: "fst (pay cast ops mid uid s) = Reply 200 (MatchDoc mk ?m)"
    unfolding first by simp
  have r2: "fst (pay cast ops mid uid ?s1) = Reply 200 (MatchDoc mk ?m)"
    unfolding second by (simp add: mark_paid_idem)
  have m2: "matches (snd (pay cast ops mid uid ?s1)) mk = Some ?m"
    unfolding second by (simp add: mark_paid_idem)
  have u2: "users (snd (pay cast ops mid uid ?s1)) k
      = Some (u\<lparr>totalMatchesPaid :=
          num_add ops (num_add ops (totalMatchesPaid u) (num_one ops)) (num_one ops)\<rparr>)"
    unfolding second by (simp add: u1 inc_totalMatchesPaid_def)
  show ?thesis
    using r1 r2 m1 m2 u1 u2 by (simp add: Let_def find_mark_paid)
qed

theorem pay_twice_counts_twice_witness:
  "fst (pay castObjectId js_ops mid1 uid1 (snd (pay castObjectId js_ops mid1 uid1 db0)))
     = Reply 200 (MatchDoc mid1
         (alpha_beta\<lparr>teamA := [\<lparr>userId = uid1, username = ''p1'', betAmount = Finite 100, paid = True\<rparr>]\<rparr>))
   \<and> map_option totalMatchesPaid (users (snd (pay castObjectId js_ops mid1 uid1 db0)) uid1)
       = Some (Finite 1)
   \<and> map_option totalMatchesPaid
        (users (snd (pay castObjectId js_ops mid1 uid1 (snd (pay castObjectId js_ops mid1 uid1 db0)))) uid1)
       = Some (Finite 2)"
proof -
  have i: "uid1 \<in> userId ` set (teamA alpha_beta @ teamB alpha_beta)"
    by (simp add: alpha_beta_fields)
  have m: "alpha_beta\<lparr>teamA := mark_paid uid1 (teamA alpha_beta),
                      teamB := mark_paid uid1 (teamB alpha_beta)\<rparr>
      = alpha_beta\<lparr>teamA := [\<lparr>userId = uid1, username = ''p1'', betAmount = Finite 100, paid = True\<rparr>]\<rparr>"
    by (simp add: alpha_beta_def uid1_neq_uid2)
  show ?thesis
    using pay_twice_counts_twice [where cast = castObjectId and mid = mid1 and uid = uid1
        and ops = js_ops, OF cast_mid1 db0_match i cast_uid1 db0_users(1)]
    by (simp add: Let_def m fresh_user_def js_ops_simps round53_small)
qed

text \<open>The claim as stated fails: the second call for the same match and player
  counts again.\<close>

theorem pay_twice_counterexample:
  "map_option totalMatchesPaid (users db0 uid2) = Some (Finite 0)
   \<and> map_option (map paid \<circ> teamB) (matches (snd (pay castObjectId js_ops mid1 uid2 db0)) mid1)
       = Some [True]
   \<and> map_option totalMatchesPaid
        (users (snd (pay castObjectId js_ops mid1 uid2 (snd (pay castObjectId js_ops mid1 uid2 db0)))) uid2)
       = Some (Finite 2)"
proof -
  have i: "uid2 \<in> userId ` set (teamA alpha_beta @ teamB alpha_beta)"
    by (simp add: alpha_beta_fields)
  note first = pay_found [where cast = castObjectId and mid = mid1 and uid = uid2
      and ops = js_ops, OF cast_mid1 db0_match i cast_uid2]
  let ?m = "alpha_beta\<lparr>teamA := mark_paid uid2 (teamA alpha_beta),
                        teamB := mark_paid uid2 (teamB alpha_beta)\<rparr>"
  have m1: "matches (snd (pay castObjectId js_ops mid1 uid2 db0)) mid1 = Some ?m"
    unfolding first by simp
  have i1: "uid2 \<in> userId ` set (teamA ?m @ teamB ?m)"
    by (simp add: alpha_beta_fields uid1_neq_uid2)
  note second = pay_found [where cast = castObjectId and mid = mid1 and uid = uid2
      and ops = js_ops, OF cast_mid1 m1 i1 cast_uid2]
  have u1: "users (snd (pay castObjectId js_ops mid1 uid2 db0)) uid2
      = Some ((fresh_user ''p2'')\<lparr>totalMatchesPaid := Finite 1\<rparr>)"
    unfolding first
    by (simp add: db0_users inc_totalMatchesPaid_def fresh_user_def js_ops_simps round53_small)
  have u2: "map_option totalMatchesPaid
        (users (snd (pay castObjectId js_ops mid1 uid2 (snd (pay castObjectId js_ops mid1 uid2 db0)))) uid2)
       = Some (Finite 2)"
    unfolding second by (simp add: u1 inc_totalMatchesPaid_def js_ops_simps round53_small)
  have p: "map_option (map paid \<circ> teamB) (matches (snd (pay castObjectId js_ops mid1 uid2 db0)) mid1)
       = Some [True]"
    unfolding m1 by (simp add: alpha_beta_fields)
  show ?thesis
    using u2 p by (simp add: db0_users fresh_user_def)
qed

section \<open>Conservation\<close>


















section \<open>The winner and the status of a match\<close>

lemma settle_matches:
  "matches (snd (settle cast ops now mid w s)) = matches s
   \<or> (\<exists>mk m0. matches s mk = Some m0 \<and> status m0 \<noteq> ''SETTLED''
         \<and> matches (snd (settle cast ops now mid w s))
              = (matches s)(mk \<mapsto> m0\<lparr>status := ''SETTLED'', winningTeam := w\<rparr>))"
proof (cases rule: settle_cases [of cast ops now mid w s])
  case same
  then show ?thesis by simp
next
  case (unsettled mk m0)
  have "matches (snd (settle cast ops now mid w s))
      = (matches s)(mk \<mapsto> m0\<lparr>status := ''SETTLED'', winningTeam := w\<rparr>)"
    unfolding settle_unsettled [where cast = cast and mid = mid, OF unsettled]
    by (simp add: Let_def)
  then show ?thesis
    using unsettled by blast
qed

lemma pay_matches:
  "matches (snd (pay cast ops mid uid s)) = matches s
   \<or> (\<exists>mk m0. matches s mk = Some m0
         \<and> matches (snd (pay cast ops mid uid s))
              = (matches s)(mk \<mapsto> m0\<lparr>teamA := mark_paid uid (teamA m0),
                                         teamB := mark_paid uid (teamB m0)\<rparr>))"
  by (auto simp: pay_def findById_def findByIdAndUpdate_def Let_def split: option.splits)

lemma create_matches:
  "matches (snd (create_match now newId body s)) = matches s
   \<or> (matches s newId = None
       \<and> matches (snd (create_match now newId body s)) = (matches s)(newId \<mapsto> new_Match now body))"
  by (auto simp: create_match_def Let_def)

lemma adjust_matches: "matches (snd (adjust cast ops now uid amt descr s)) = matches s"
  by (auto simp: adjust_def findByIdAndUpdate_def split: option.splits sum.splits)

lemma update_user_matches: "matches (snd (update_user cast uid body s)) = matches s"
  by (auto simp: update_user_def findByIdAndUpdate_def split: option.splits sum.splits)

lemma winner_iff_settled_serve:
  assumes "winner_iff_settled s" and "plain_request r"
  shows "winner_iff_settled (snd (serve cast ops now r s))"
proof (cases r)
  case (Adjust uid amt descr)
  then show ?thesis
    using assms by (simp add: winner_iff_settled_def adjust_matches)
next
  case (Settle mid w)
  then have w: "w \<noteq> None"
    using assms(2) by simp
  show ?thesis
    using settle_matches [of cast ops now mid w s] assms(1) w
    unfolding Settle serve.simps winner_iff_settled_def
    by (elim disjE exE conjE) (simp, simp)
next
  case (Pay mid uid)
  show ?thesis
    using pay_matches [of cast ops mid uid s] assms(1)
    unfolding Pay serve.simps winner_iff_settled_def
    by (elim disjE exE conjE) (simp, simp)
next
  case (UpdateUser uid body)
  then show ?thesis
    using assms by (simp add: winner_iff_settled_def update_user_matches)
next
  case (CreateMatch newId body)
  then have b: "b_status body = None" "b_winningTeam body = None"
    using assms(2) by simp_all
  show ?thesis
    using create_matches [of now newId body s] assms(1)
    unfolding CreateMatch serve.simps winner_iff_settled_def
    by (elim disjE exE conjE) (simp, simp add: new_Match_def b or_else_def)
qed

lemma forget_paid_mark_paid:
  "map (\<lambda>p. p\<lparr>paid := False\<rparr>) (mark_paid uid ps) = map (\<lambda>p. p\<lparr>paid := False\<rparr>) ps"
  by (induction ps) simp_all

lemma settled_kept_serve:
  assumes "matches s mk = Some m" and "status m = ''SETTLED''"
  shows "\<exists>m'. matches (snd (serve cast ops now r s)) mk = Some m' \<and> forget_paid m' = forget_paid m"
proof (cases r)
  case (Adjust uid amt descr)
  then show ?thesis
    using assms by (simp add: adjust_matches)
next
  case (Settle mid w)
  show ?thesis
    using settle_matches [of cast ops now mid w s] assms
    unfolding Settle serve.simps
    by (elim disjE exE conjE) (simp, auto)
next
  case (Pay mid uid)
  show ?thesis
    using pay_matches [of cast ops mid uid s] assms
    unfolding Pay serve.simps
    by (elim disjE exE conjE) (simp, auto simp: forget_paid_def forget_paid_mark_paid)
next
  case (UpdateUser uid body)
  then show ?thesis
    using assms by (simp add: update_user_matches)
next
  case (CreateMatch newId body)
  show ?thesis
    using create_matches [of now newId body s] assms
    unfolding CreateMatch serve.simps
    by (elim disjE exE conjE) (simp, auto)
qed

lemma forget_paid_status: "forget_paid m' = forget_paid m \<Longrightarrow> status m' = status m"
  by (metis forget_paid_def match.select_convs(5) match.surjective match.update_convs(2) match.update_convs(3))

lemma winner_iff_settled_run:
  "winner_iff_settled s \<Longrightarrow> \<forall>r\<in>set rs. plain_request r \<Longrightarrow>
   winner_iff_settled (run cast ops clock n rs s)"
proof (induction rs arbitrary: s n)
  case Nil
  then show ?case by simp
next
  case (Cons r rs)
  have "winner_iff_settled (snd (serve cast ops (clock n) r s))"
    using Cons.prems by (simp add: winner_iff_settled_serve)
  then show ?case
    using Cons.prems by (simp add: Cons.IH)
qed

lemma settled_kept_run:
  "matches s mk = Some m \<Longrightarrow> status m = ''SETTLED'' \<Longrightarrow>
   \<exists>m'. matches (run cast ops clock n rs s) mk = Some m' \<and> forget_paid m' = forget_paid m"
proof (induction rs arbitrary: s m n)
  case Nil
  then show ?case by simp
next
  case (Cons r rs)
  from settled_kept_serve [OF Cons.prems, of cast ops "clock n" r]
  obtain m1 where m1: "matches (snd (serve cast ops (clock n) r s)) mk = Some m1"
    and f1: "forget_paid m1 = forget_paid m"
    by blast
  have "status m1 = ''SETTLED''"
    using forget_paid_status [OF f1] Cons.prems(2) by simp
  from Cons.IH [OF m1 this, of "Suc n"]
  show ?case
    using f1 by auto
qed

text \<open>
  C8, as the code has it. When the database has the winningTeam set exactly on its
  SETTLED matches, it still has after every sequence of requests in which the create
  bodies name neither status nor winningTeam and the settle bodies name a
  winningTeam. And after every sequence of requests whatever, a match that was
  SETTLED is still stored, and is the same but for the paid flags of its roster
  entries: its name, status, winningTeam, creation time and its rosters with their
  stake amounts are unchanged.
\<close>

theorem match_invariants:
  "(winner_iff_settled s \<and> (\<forall>r\<in>set rs. plain_request r) \<longrightarrow>
      winner_iff_settled (run cast ops clock n rs s))
   \<and> (matches s mk = Some m \<and> status m = ''SETTLED'' \<longrightarrow>
      (\<exists>m'. matches (run cast ops clock n rs s) mk = Some m' \<and> forget_paid m' = forget_paid m))"
  using winner_iff_settled_run [of s rs cast ops clock n] settled_kept_run [of s mk m cast ops clock n rs]
  by blast

lemma winner_iff_settled_db0: "winner_iff_settled db0"
  by (auto simp: winner_iff_settled_def db0_def alpha_beta_def split: if_splits)

theorem match_invariants_witness:
  "winner_iff_settled
     (run castObjectId js_ops (\<lambda>n. tick) 0
        [Settle mid1 (Some ''A''), Pay mid1 uid1, CreateMatch uid1 alpha_body] db0)
   \<and> (\<exists>m'. matches (run castObjectId js_ops (\<lambda>n. tick) 0 [Pay mid1 uid1, Settle mid1 (Some ''B'')]
                      (snd (settle castObjectId js_ops tick mid1 (Some ''A'') db0))) mid1 = Some m'
          \<and> forget_paid m'
             = forget_paid (alpha_beta\<lparr>status := ''SETTLED'', winningTeam := Some ''A''\<rparr>))"
proof -
  have p: "\<forall>r\<in>set [Settle mid1 (Some ''A''), Pay mid1 uid1, CreateMatch uid1 alpha_body].
      plain_request r"
    by (simp add: alpha_body_def)
  have m: "matches (snd (settle castObjectId js_ops tick mid1 (Some ''A'') db0)) mid1
      = Some (alpha_beta\<lparr>status := ''SETTLED'', winningTeam := Some ''A''\<rparr>)"
    by (rule settle_stores_settled [where cast = castObjectId and mid = mid1,
          OF cast_mid1 db0_match alpha_beta_unsettled])
  have st: "status (alpha_beta\<lparr>status := ''SETTLED'', winningTeam := Some ''A''\<rparr>) = ''SETTLED''"
    by simp
  show ?thesis
    using match_invariants [of db0
        "[Settle mid1 (Some ''A''), Pay mid1 uid1, CreateMatch uid1 alpha_body]"
        castObjectId js_ops "\<lambda>n. tick" 0]
      match_invariants [of "snd (settle castObjectId js_ops tick mid1 (Some ''A'') db0)"
        "[Pay mid1 uid1, Settle mid1 (Some ''B'')]"
        castObjectId js_ops "\<lambda>n. tick" 0 mid1
        "alpha_beta\<lparr>status := ''SETTLED'', winningTeam := Some ''A''\<rparr>"]
      winner_iff_settled_db0 p m st
    by blast
qed

text \<open>The claim as stated fails twice: a settle body without a winningTeam gives a
  SETTLED match without a winner, and a create body that names a winningTeam gives an
  UNDECIDED match with one.\<close>

theorem match_invariant_counterexample:
  "map_option status
      (matches (run castObjectId js_ops (\<lambda>n. tick) 0 [Settle mid1 None] db0) mid1)
     = Some ''SETTLED''
   \<and> map_option winningTeam
      (matches (run castObjectId js_ops (\<lambda>n. tick) 0 [Settle mid1 None] db0) mid1)
     = Some None
   \<and> map_option status
      (matches (run castObjectId js_ops (\<lambda>n. tick) 0 [CreateMatch mid1 winner_body] db_empty) mid1)
     = Some ''UNDECIDED''
   \<and> map_option winningTeam
      (matches (run castObjectId js_ops (\<lambda>n. tick) 0 [CreateMatch mid1 winner_body] db_empty) mid1)
     = Some (Some ''A'')"
proof -
  have c: "matches (run castObjectId js_ops (\<lambda>n. tick) 0 [CreateMatch mid1 winner_body] db_empty) mid1
      = Some (new_Match tick winner_body)"
    by (simp add: create_match_def Let_def db_empty_def)
  have s: "matches (run castObjectId js_ops (\<lambda>n. tick) 0 [Settle mid1 None] db0) mid1
      = Some (alpha_beta\<lparr>status := ''SETTLED'', winningTeam := None\<rparr>)"
    using settle_stores_settled [where cast = castObjectId and mid = mid1 and now = tick
        and w = None and ops = js_ops, OF cast_mid1 db0_match alpha_beta_unsettled]
    by simp
  show ?thesis
    unfolding c s
    by (simp add: new_Match_def winner_body_def alpha_body_def or_else_def)
qed

end
